theory Spec2Isabelle
  imports Main "HOL-Library.Word"
begin

unbundle bit_operations_syntax

section \<open>MIDI port buffer\<close>

text \<open>
  A MIDI port buffer is a \<open>struct midi_buffer\<close> header of six 32-bit words, followed in the
  same memory block by the array of \<open>struct midi_event\<close> headers (8 bytes each) and, growing
  down from the end of the block, the heap of payloads longer than \<open>MIDI_INLINE_MAX\<close>.
  The six header words are record fields; everything behind them is kept as raw bytes
  (\<open>mem\<close>, indexed by the byte offset from the start of the port buffer), because the
  event array, the inline payloads and the heap share that memory. Multi-byte fields are
  stored little-endian.
\<close>

record midi_buffer =
  magic :: "32 word"
  buffer_size :: "32 word"
  nframes :: "32 word"
  write_pos :: "32 word"
  event_count :: "32 word"
  lost_events :: "32 word"
  mem :: "nat \<Rightarrow> 8 word"

definition MIDI_BUFFER_MAGIC :: "32 word" where
  "MIDI_BUFFER_MAGIC = 0x900df00d"

definition MIDI_INLINE_MAX :: nat where
  "MIDI_INLINE_MAX = 4"

definition sizeof_midi_buffer :: nat where
  "sizeof_midi_buffer = 24"

definition sizeof_midi_event :: nat where
  "sizeof_midi_event = 8"

definition MAX_BUFFER_FRAMES :: nat where
  "MAX_BUFFER_FRAMES = 8192"

definition ENOBUFS :: int where
  "ENOBUFS = 105"

definition load16 :: "(nat \<Rightarrow> 8 word) \<Rightarrow> nat \<Rightarrow> 16 word" where
  "load16 m a = ucast (m a) OR push_bit 8 (ucast (m (a + 1)))"

definition store16 :: "nat \<Rightarrow> 16 word \<Rightarrow> (nat \<Rightarrow> 8 word) \<Rightarrow> (nat \<Rightarrow> 8 word)" where
  "store16 a w m = m(a := ucast w, a + 1 := ucast (drop_bit 8 w))"

definition load32 :: "(nat \<Rightarrow> 8 word) \<Rightarrow> nat \<Rightarrow> 32 word" where
  "load32 m a = ucast (m a) OR push_bit 8 (ucast (m (a + 1)))
     OR push_bit 16 (ucast (m (a + 2))) OR push_bit 24 (ucast (m (a + 3)))"

definition store32 :: "nat \<Rightarrow> 32 word \<Rightarrow> (nat \<Rightarrow> 8 word) \<Rightarrow> (nat \<Rightarrow> 8 word)" where
  "store32 a w m = m(a := ucast w, a + 1 := ucast (drop_bit 8 w),
     a + 2 := ucast (drop_bit 16 w), a + 3 := ucast (drop_bit 24 w))"

definition memcpy :: "nat \<Rightarrow> 8 word list \<Rightarrow> (nat \<Rightarrow> 8 word) \<Rightarrow> (nat \<Rightarrow> 8 word)" where
  "memcpy dst src m = (\<lambda>a. if dst \<le> a \<and> a < dst + length src then src ! (a - dst) else m a)"

definition read_bytes :: "(nat \<Rightarrow> 8 word) \<Rightarrow> nat \<Rightarrow> nat \<Rightarrow> 8 word list" where
  "read_bytes m p n = map (\<lambda>k. m (p + k)) [0..<n]"

text \<open>Offsets of the fields of \<open>events[i]\<close>: \<open>time\<close> at 0, \<open>size\<close> at 2, and the union of
  \<open>byte_offset\<close> and \<open>inline_data\<close> at 4.\<close>

definition event_addr :: "nat \<Rightarrow> nat" where
  "event_addr i = sizeof_midi_buffer + i * sizeof_midi_event"

definition ev_time :: "midi_buffer \<Rightarrow> nat \<Rightarrow> 16 word" where
  "ev_time mb i = load16 (mem mb) (event_addr i)"

definition ev_size :: "midi_buffer \<Rightarrow> nat \<Rightarrow> 16 word" where
  "ev_size mb i = load16 (mem mb) (event_addr i + 2)"

definition ev_byte_offset :: "midi_buffer \<Rightarrow> nat \<Rightarrow> 32 word" where
  "ev_byte_offset mb i = load32 (mem mb) (event_addr i + 4)"

definition ev_inline_data :: "nat \<Rightarrow> nat" where
  "ev_inline_data i = event_addr i + 4"

text \<open>\<open>init_buffer\<close> for a port of type 1 (MIDI); \<open>maxframes\<close> is a \<open>size_t\<close>.\<close>

definition init_buffer :: "midi_buffer \<Rightarrow> 64 word \<Rightarrow> midi_buffer" where
  "init_buffer mb maxframes =
     mb\<lparr>magic := MIDI_BUFFER_MAGIC,
        buffer_size := of_nat (MAX_BUFFER_FRAMES * 4),
        nframes := ucast maxframes,
        write_pos := 0,
        event_count := 0,
        lost_events := 0\<rparr>"

definition jack_midi_clear_buffer :: "midi_buffer \<Rightarrow> midi_buffer" where
  "jack_midi_clear_buffer mb = mb\<lparr>event_count := 0, write_pos := 0, lost_events := 0\<rparr>"

definition jack_midi_get_event_count :: "midi_buffer \<Rightarrow> 32 word" where
  "jack_midi_get_event_count mb = event_count mb"

definition jack_midi_get_lost_event_count :: "midi_buffer \<Rightarrow> 32 word" where
  "jack_midi_get_lost_event_count mb = lost_events mb"

definition midi_event_data :: "midi_buffer \<Rightarrow> nat \<Rightarrow> nat" where
  "midi_event_data mb i =
     (if unat (ev_size mb i) \<le> MIDI_INLINE_MAX then ev_inline_data i
      else unat (ev_byte_offset mb i))"

text \<open>\<open>jack_midi_event_get\<close> fills a \<open>jack_midi_event_t\<close>: the time widened to
  \<open>jack_nframes_t\<close>, the size widened to \<open>size_t\<close>, and the pointer to the payload (here its
  offset in the port buffer). It does not check the index and always returns 0.\<close>

definition jack_midi_event_get :: "midi_buffer \<Rightarrow> 32 word \<Rightarrow> 32 word \<times> 64 word \<times> nat" where
  "jack_midi_event_get mb event_index =
     (let i = unat event_index
      in (ucast (ev_time mb i), ucast (ev_size mb i), midi_event_data mb i))"

text \<open>The conversions are those of C: \<open>buffer_size\<close> and \<open>write_pos\<close> are \<open>int32_t\<close> and are
  sign-extended to \<open>size_t\<close>; \<open>event_count + 1\<close> is computed in 32 bits and then widened.\<close>

definition midi_used_size :: "midi_buffer \<Rightarrow> 64 word" where
  "midi_used_size mb = of_nat sizeof_midi_buffer + scast (write_pos mb)
     + ucast (event_count mb + 1) * of_nat sizeof_midi_event"

definition jack_midi_max_event_size :: "midi_buffer \<Rightarrow> 64 word" where
  "jack_midi_max_event_size mb =
     (let buffer_size = (scast (buffer_size mb) :: 64 word);
          used_size = midi_used_size mb
      in if used_size > buffer_size then 0
         else if buffer_size - used_size < of_nat MIDI_INLINE_MAX then of_nat MIDI_INLINE_MAX
         else buffer_size - used_size)"

definition reserve_failed :: "midi_buffer \<Rightarrow> nat option \<times> midi_buffer" where
  "reserve_failed mb = (None, mb\<lparr>lost_events := lost_events mb + 1\<rparr>)"

definition jack_midi_event_reserve ::
    "midi_buffer \<Rightarrow> 32 word \<Rightarrow> 64 word \<Rightarrow> nat option \<times> midi_buffer" where
  "jack_midi_event_reserve mb time data_size =
     (if time \<ge> nframes mb then reserve_failed mb
      else if event_count mb > 0 \<and> time < ucast (ev_time mb (unat (event_count mb - 1)))
      then reserve_failed mb
      else if data_size = 0 then reserve_failed mb
      else if jack_midi_max_event_size mb < data_size then reserve_failed mb
      else
        let ev = event_addr (unat (event_count mb));
            m1 = store16 ev (ucast time) (mem mb);
            m2 = store16 (ev + 2) (ucast data_size) m1
        in if data_size \<le> of_nat MIDI_INLINE_MAX
           then (Some (ev + 4), mb\<lparr>event_count := event_count mb + 1, mem := m2\<rparr>)
           else
             let wp = (ucast ((scast (write_pos mb) :: 64 word) + data_size) :: 32 word);
                 byte_offset = (ucast ((scast (buffer_size mb) :: 64 word) - 1 - scast wp) :: 32 word);
                 m3 = store32 (ev + 4) byte_offset m2
             in (Some (unat byte_offset),
                 mb\<lparr>write_pos := wp, event_count := event_count mb + 1, mem := m3\<rparr>))"

definition jack_midi_event_write ::
    "midi_buffer \<Rightarrow> 32 word \<Rightarrow> 8 word list \<Rightarrow> int \<times> midi_buffer" where
  "jack_midi_event_write mb time data =
     (case jack_midi_event_reserve mb time (of_nat (length data)) of
        (Some retbuf, mb') \<Rightarrow> (0, mb'\<lparr>mem := memcpy retbuf data (mem mb')\<rparr>)
      | (None, mb') \<Rightarrow> (ENOBUFS, mb'))"

text \<open>The zero-filled \<open>empty\<close> array of a port (the client is allocated with \<open>calloc\<close>),
  and the port buffer that \<open>client_node_port_use_buffers\<close> sets up in it with
  \<open>init_buffer(p, p->emptyptr, MAX_BUFFER_FRAMES)\<close>.\<close>

definition zeroed_memory :: midi_buffer where
  "zeroed_memory = \<lparr>magic = 0, buffer_size = 0, nframes = 0, write_pos = 0,
     event_count = 0, lost_events = 0, mem = (\<lambda>_. 0)\<rparr>"

definition empty_port_buffer :: midi_buffer where
  "empty_port_buffer = init_buffer zeroed_memory (of_nat MAX_BUFFER_FRAMES)"

text \<open>The bytes in use once the next event header is added, and what the specification
  calls the remaining capacity: the buffer size minus that usage.\<close>

definition header_heap_usage :: "midi_buffer \<Rightarrow> nat" where
  "header_heap_usage mb = sizeof_midi_buffer + unat (write_pos mb)
     + (unat (event_count mb) + 1) * sizeof_midi_event"

definition spec_remaining_capacity :: "midi_buffer \<Rightarrow> int" where
  "spec_remaining_capacity mb = int (unat (buffer_size mb)) - int (header_heap_usage mb)"

text \<open>The signed fields hold non-negative values and the event counter is not about to wrap.\<close>

definition midi_sane :: "midi_buffer \<Rightarrow> bool" where
  "midi_sane mb \<longleftrightarrow> unat (buffer_size mb) < 2 ^ 31 \<and> unat (write_pos mb) < 2 ^ 31
     \<and> unat (event_count mb) < 2 ^ 32 - 1"

text \<open>The end of the header region: the \<open>struct midi_buffer\<close> and \<open>event_count\<close> event
  headers.\<close>

definition header_region_end :: "midi_buffer \<Rightarrow> nat" where
  "header_region_end mb = event_addr (unat (event_count mb))"

text \<open>The events of a port buffer as \<open>jack_midi_event_get\<close> returns them, each with
  the \<open>size\<close> bytes found at its data pointer.\<close>

definition midi_event_at :: "midi_buffer \<Rightarrow> nat \<Rightarrow> 32 word \<times> 64 word \<times> 8 word list" where
  "midi_event_at mb i =
     (case jack_midi_event_get mb (of_nat i) of
        (time, len, buffer) \<Rightarrow> (time, len, read_bytes (mem mb) buffer (unat len)))"

definition midi_events :: "midi_buffer \<Rightarrow> (32 word \<times> 64 word \<times> 8 word list) list" where
  "midi_events mb = map (midi_event_at mb) [0..<unat (jack_midi_get_event_count mb)]"

section \<open>Wire sequences\<close>

text \<open>
  A \<open>spa_pod_sequence\<close> is a list of controls, each with an offset in the period, a type and
  a value; for MIDI the value is a bytes pod. The cursor functions of the SPA library
  (\<open>spa_pod_control_first\<close>, \<open>spa_pod_control_is_inside\<close>, \<open>spa_pod_control_next\<close>) walk that
  list: a cursor is the list of controls still ahead of it, it is inside while that list
  is not empty, and \<open>next\<close> drops its head.
\<close>

record spa_pod_control =
  offset :: "32 word"
  ctype :: "32 word"
  value_body :: "8 word list"

definition SPA_CONTROL_Midi :: "32 word" where
  "SPA_CONTROL_Midi = 2"

text \<open>The pod builder of the SPA library writes into a buffer of \<open>wire_size\<close> bytes: a sequence
  takes 16 bytes of header and every control 16 bytes of header plus its value padded to
  8 bytes. A write that does not fit is not stored but still counted, and when the whole
  sequence does not fit, \<open>spa_pod_builder_pop\<close> leaves the header as it was pushed, which
  describes a sequence without controls. When not even the header fits, nothing is
  written (\<open>None\<close>).\<close>

definition control_pod_size :: "spa_pod_control \<Rightarrow> nat" where
  "control_pod_size c = 16 + 8 * ((length (value_body c) + 7) div 8)"

definition sequence_pod_size :: "spa_pod_control list \<Rightarrow> nat" where
  "sequence_pod_size cs = 16 + sum_list (map control_pod_size cs)"

definition midi_controls :: "midi_buffer \<Rightarrow> spa_pod_control list" where
  "midi_controls midi =
     map (\<lambda>i. case jack_midi_event_get midi (of_nat i) of
            (time, len, buffer) \<Rightarrow>
              \<lparr>offset = time, ctype = SPA_CONTROL_Midi,
               value_body = read_bytes (mem midi) buffer (unat len)\<rparr>)
       [0..<unat (jack_midi_get_event_count midi)]"

definition convert_from_midi :: "midi_buffer \<Rightarrow> nat \<Rightarrow> spa_pod_control list option" where
  "convert_from_midi midi wire_size =
     (if wire_size < 16 then None
      else if sequence_pod_size (midi_controls midi) \<le> wire_size then Some (midi_controls midi)
      else Some [])"

text \<open>The inner \<open>for\<close> loop of \<open>convert_to_midi\<close>: \<open>i\<close> is the index of the first cursor of the
  list, the last argument holds \<open>next_index\<close> and \<open>next\<close> (\<open>None\<close> for \<open>NULL\<close>).\<close>

fun find_next ::
    "nat \<Rightarrow> spa_pod_control list list \<Rightarrow> (nat \<times> spa_pod_control) option
      \<Rightarrow> (nat \<times> spa_pod_control) option" where
  "find_next i [] nxt = nxt"
| "find_next i (c # cs) nxt =
     find_next (Suc i) cs
       (case c of
          [] \<Rightarrow> nxt
        | x # _ \<Rightarrow>
            (case nxt of
               None \<Rightarrow> Some (i, x)
             | Some (j, y) \<Rightarrow> if offset x < offset y then Some (i, x) else nxt))"

definition midi_deliver :: "midi_buffer \<Rightarrow> spa_pod_control \<Rightarrow> midi_buffer" where
  "midi_deliver midi nxt =
     (if ctype nxt = SPA_CONTROL_Midi
      then snd (jack_midi_event_write midi (offset nxt) (value_body nxt))
      else midi)"

function convert_to_midi :: "spa_pod_control list list \<Rightarrow> midi_buffer \<Rightarrow> midi_buffer" where
  "convert_to_midi c midi =
     (case find_next 0 c None of
        None \<Rightarrow> midi
      | Some (next_index, nxt) \<Rightarrow>
          convert_to_midi (c[next_index := tl (c ! next_index)]) (midi_deliver midi nxt))"
  by pat_completeness auto
termination
proof (relation "measure (\<lambda>(c, midi). sum_list (map length c))")
  show "wf (measure (\<lambda>(c, midi). sum_list (map length c)))" by simp
next
  fix c :: "spa_pod_control list list" and midi :: midi_buffer and x2 next_index nxt
  assume f: "find_next 0 c None = Some x2" and x2: "(next_index, nxt) = x2"
  have inside: "\<And>i nx j y. find_next i cs nx = Some (j, y) \<Longrightarrow> nx = Some (j, y) \<or> (i \<le> j \<and> j < i + length cs \<and> cs ! (j - i) \<noteq> [])" for cs
  proof (induction cs)
    case Nil
    then show ?case by simp
  next
    case (Cons a cs)
    from Cons.prems Cons.IH[of "Suc i"] show ?case
      by (fastforce split: list.splits option.splits if_splits simp: nth_Cons')
  qed
  from f x2 inside[of 0 c None next_index nxt]
  have i: "next_index < length c" and ne: "c ! next_index \<noteq> []" by auto
  have "length (c ! next_index) \<in> set (map length c)"
    using i by (metis length_map nth_map nth_mem)
  then have le: "length (c ! next_index) \<le> sum_list (map length c)"
    by (simp add: member_le_sum_list)
  define k where "k = length (c ! next_index)"
  define s where "s = sum_list (map length c)"
  have pos: "0 < k" using ne by (simp add: k_def)
  have "sum_list (map length (c[next_index := tl (c ! next_index)])) = s + (k - 1) - k"
    using i by (simp add: sum_list_update map_update k_def s_def)
  moreover have "k \<le> s" using le by (simp add: k_def s_def)
  then have "s + (k - 1) - k < s" using pos by arith
  ultimately have "sum_list (map length (c[next_index := tl (c ! next_index)])) < sum_list (map length c)"
    by (simp add: s_def)
  then show "((c[next_index := tl (c ! next_index)], midi_deliver midi nxt), (c, midi))
      \<in> measure (\<lambda>(c, midi). sum_list (map length c))"
    by simp
qed

declare convert_to_midi.simps [simp del]

text \<open>Encoding a port buffer into a wire buffer of \<open>wire_size\<close> bytes and decoding that single
  sequence the way \<open>get_buffer_input_midi\<close> does: clear the destination, then
  \<open>convert_to_midi\<close>.\<close>

definition midi_roundtrip :: "midi_buffer \<Rightarrow> nat \<Rightarrow> midi_buffer \<Rightarrow> midi_buffer option" where
  "midi_roundtrip src wire_size dst =
     (case convert_from_midi src wire_size of
        None \<Rightarrow> None
      | Some s \<Rightarrow> Some (convert_to_midi [s] (jack_midi_clear_buffer dst)))"

text \<open>The port buffer after one event of 32726 bytes: two bytes remain behind the next
  event header.\<close>

definition nearly_full_port_buffer :: midi_buffer where
  "nearly_full_port_buffer = snd (jack_midi_event_write empty_port_buffer 0 (replicate 32726 0))"


text \<open>The two wire sequences of the specification's merge example, with the payloads
  "a", "b" and "c" as single bytes.\<close>

definition example_seq_a :: "spa_pod_control list" where
  "example_seq_a = [\<lparr>offset = 2, ctype = SPA_CONTROL_Midi, value_body = [0x61]\<rparr>]"

definition example_seq_b :: "spa_pod_control list" where
  "example_seq_b = [\<lparr>offset = 1, ctype = SPA_CONTROL_Midi, value_body = [0x62]\<rparr>,
                    \<lparr>offset = 2, ctype = SPA_CONTROL_Midi, value_body = [0x63]\<rparr>]"

text \<open>Auxiliary notions for the round trip: the heap bytes a list of payloads needs, what it
  means for a port buffer to hold a list of controls as its events, and the lists that can
  be written into an empty buffer of a given size and period without any event being
  rejected and without the heap reaching the last event header.\<close>

definition heap_bytes :: "8 word list list \<Rightarrow> nat" where
  "heap_bytes ds = sum_list (map (\<lambda>d. if MIDI_INLINE_MAX < length d then length d else 0) ds)"

definition stored_at :: "midi_buffer \<Rightarrow> spa_pod_control list \<Rightarrow> nat \<Rightarrow> bool" where
  "stored_at mb cs i \<longleftrightarrow>
     ev_time mb i = ucast (offset (cs ! i))
     \<and> unat (ev_size mb i) = length (value_body (cs ! i))
     \<and> (MIDI_INLINE_MAX < length (value_body (cs ! i)) \<longrightarrow>
          unat (ev_byte_offset mb i) + heap_bytes (map value_body (take (Suc i) cs)) + 1
            = unat (buffer_size mb))
     \<and> read_bytes (mem mb) (midi_event_data mb i) (length (value_body (cs ! i)))
          = value_body (cs ! i)"

definition written :: "midi_buffer \<Rightarrow> spa_pod_control list \<Rightarrow> bool" where
  "written mb cs \<longleftrightarrow>
     unat (event_count mb) = length cs
     \<and> unat (write_pos mb) = heap_bytes (map value_body cs)
     \<and> (\<forall>i<length cs. stored_at mb cs i)"

definition writable :: "nat \<Rightarrow> 32 word \<Rightarrow> spa_pod_control list \<Rightarrow> bool" where
  "writable bs nf cs \<longleftrightarrow>
     (\<forall>c\<in>set cs. unat (offset c) < 2 ^ 16 \<and> offset c < nf
        \<and> 0 < length (value_body c) \<and> length (value_body c) < 2 ^ 16)
     \<and> sorted (map offset cs)
     \<and> event_addr (length cs) + heap_bytes (map value_body cs) < bs
     \<and> bs < 2 ^ 31"

text \<open>What the round trip asks of the source buffer, stated on its events in wire form:
  \<open>buffer_size\<close> is not negative, the events are ordered by time, lie in the period and
  are not empty, their headers and heap payloads leave at least one byte of the buffer
  free, and the encoded sequence fits the wire buffer.\<close>

definition roundtrip_fits :: "midi_buffer \<Rightarrow> nat \<Rightarrow> bool" where
  "roundtrip_fits src wire_size \<longleftrightarrow>
     unat (buffer_size src) < 2 ^ 31
     \<and> sorted (map offset (midi_controls src))
     \<and> (\<forall>c\<in>set (midi_controls src). offset c < nframes src \<and> value_body c \<noteq> [])
     \<and> event_addr (length (midi_controls src)) + heap_bytes (map value_body (midi_controls src))
          < unat (buffer_size src)
     \<and> sequence_pod_size (midi_controls src) \<le> wire_size"

text \<open>The port buffer with the two events of the specification's round-trip example, at
  times 0 and 5 with 3 and 2 bytes, and a port buffer with 1365 one-byte events.\<close>

definition example_events_buffer :: midi_buffer where
  "example_events_buffer =
     snd (jack_midi_event_write
       (snd (jack_midi_event_write (jack_midi_clear_buffer empty_port_buffer) 0 [0x90, 0x3c, 0x40]))
       5 [0xc0, 0x05])"

definition note_control :: spa_pod_control where
  "note_control = \<lparr>offset = 0, ctype = SPA_CONTROL_Midi, value_body = [0xf8]\<rparr>"

definition many_events_buffer :: midi_buffer where
  "many_events_buffer =
     foldl midi_deliver (jack_midi_clear_buffer empty_port_buffer) (replicate 1365 note_control)"

section \<open>Buffers of a mix\<close>

text \<open>
  The intrusive lists of the SPA library (\<open>spa_list\<close>) are modelled by the list of the
  elements that are linked, head first; an element is named by its index in the array that
  holds it. \<open>spa_list_remove\<close> unlinks an element from the list it is on: here it removes
  the element from a list, and leaves a list that does not hold it as it is.
\<close>

definition spa_list_is_empty :: "nat list \<Rightarrow> bool" where
  "spa_list_is_empty xs \<longleftrightarrow> xs = []"

definition spa_list_first :: "nat list \<Rightarrow> nat" where
  "spa_list_first xs = hd xs"

definition spa_list_remove :: "nat \<Rightarrow> nat list \<Rightarrow> nat list" where
  "spa_list_remove x xs = remove1 x xs"

definition spa_list_append :: "nat list \<Rightarrow> nat \<Rightarrow> nat list" where
  "spa_list_append xs x = xs @ [x]"

definition MAX_BUFFERS :: nat where
  "MAX_BUFFERS = 2"

definition BUFFER_FLAG_OUT :: "32 word" where
  "BUFFER_FLAG_OUT = 1"

definition BUFFER_FLAG_MAPPED :: "32 word" where
  "BUFFER_FLAG_MAPPED = 2"

text \<open>Of \<open>struct buffer\<close> and \<open>struct mix\<close>, the fields that the queue functions read or
  write. \<open>buffers\<close> is the array \<open>mix->buffers\<close> of \<open>MAX_BUFFERS\<close> elements, \<open>queue\<close> the list
  \<open>mix->queue\<close> of the buffers linked through \<open>buffer.link\<close>.\<close>

record buffer =
  flags :: "32 word"
  buffer_id :: "32 word"

record mix =
  mix_id :: "32 word"
  buffers :: "buffer list"
  n_buffers :: "32 word"
  queue :: "nat list"

definition SPA_FLAG_IS_SET :: "32 word \<Rightarrow> 32 word \<Rightarrow> bool" where
  "SPA_FLAG_IS_SET field flag \<longleftrightarrow> field AND flag = flag"

definition SPA_FLAG_SET :: "32 word \<Rightarrow> 32 word \<Rightarrow> 32 word" where
  "SPA_FLAG_SET field flag = field OR flag"

definition SPA_FLAG_CLEAR :: "32 word \<Rightarrow> 32 word \<Rightarrow> 32 word" where
  "SPA_FLAG_CLEAR field flag = field AND NOT flag"

text \<open>\<open>dequeue_buffer\<close> returns the buffer at the head of the queue (its index), or \<open>None\<close>
  for \<open>NULL\<close>.\<close>

definition dequeue_buffer :: "mix \<Rightarrow> nat option \<times> mix" where
  "dequeue_buffer m =
     (if spa_list_is_empty (queue m) then (None, m)
      else
        let b = spa_list_first (queue m)
        in (Some b,
            m\<lparr>queue := spa_list_remove b (queue m),
              buffers := (buffers m)
                [b := (buffers m ! b)\<lparr>flags := SPA_FLAG_SET (flags (buffers m ! b)) BUFFER_FLAG_OUT\<rparr>]\<rparr>))"

text \<open>\<open>reuse_buffer\<close> indexes \<open>mix->buffers\<close> with \<open>id\<close> unchecked; an \<open>id\<close> outside
  the array is an access out of bounds, for which the model returns \<open>None\<close>.\<close>

definition reuse_buffer :: "mix \<Rightarrow> 32 word \<Rightarrow> mix option" where
  "reuse_buffer m ident =
     (if unat ident < length (buffers m)
      then
        let b = buffers m ! unat ident
        in if SPA_FLAG_IS_SET (flags b) BUFFER_FLAG_OUT
           then Some (m\<lparr>queue := spa_list_append (queue m) (unat ident),
                        buffers := (buffers m)
                          [unat ident := b\<lparr>flags := SPA_FLAG_CLEAR (flags b) BUFFER_FLAG_OUT\<rparr>]\<rparr>)
           else Some m
      else None)"

text \<open>\<open>clear_buffers\<close>, which empties the queue before buffers are assigned (the unmapping of
  the buffers' memory is not modelled).\<close>

definition clear_buffers :: "mix \<Rightarrow> mix" where
  "clear_buffers m = m\<lparr>n_buffers := 0, queue := []\<rparr>"

text \<open>The invariant of a mix: the array has \<open>MAX_BUFFERS\<close> elements, no buffer is queued
  twice, and a queued buffer is an element of the array and is not flagged \<open>OUT\<close>.\<close>

definition mix_wf :: "mix \<Rightarrow> bool" where
  "mix_wf m \<longleftrightarrow>
     length (buffers m) = MAX_BUFFERS
     \<and> distinct (queue m)
     \<and> (\<forall>b\<in>set (queue m). b < length (buffers m)
           \<and> \<not> SPA_FLAG_IS_SET (flags (buffers m ! b)) BUFFER_FLAG_OUT)"

definition example_mix :: mix where
  "example_mix = \<lparr>mix_id = 0,
     buffers = [\<lparr>flags = 0, buffer_id = 0\<rparr>, \<lparr>flags = 0, buffer_id = 1\<rparr>],
     n_buffers = 2, queue = [0, 1]\<rparr>"

section \<open>The client\<close>

text \<open>
  A function of the library that dereferences a \<open>NULL\<close> pointer does not return; its
  outcome is \<open>NullDeref\<close>.
\<close>

datatype 'a outcome = Returns 'a | NullDeref

datatype spa_direction = SPA_DIRECTION_INPUT | SPA_DIRECTION_OUTPUT

text \<open>The interface types that \<open>registry_event_global\<close> tells apart; every other value of
  \<open>type\<close>, the 0 of a fresh object among them, is \<open>PW_TYPE_INTERFACE_other\<close>.\<close>

datatype interface_type =
  PW_TYPE_INTERFACE_Node | PW_TYPE_INTERFACE_Port | PW_TYPE_INTERFACE_Link | PW_TYPE_INTERFACE_other

datatype jack_transport_state =
  JackTransportStopped | JackTransportRolling | JackTransportLooping | JackTransportStarting

text \<open>The callbacks of the application. A call is recorded with its arguments, in the order
  of the calls, in the field \<open>calls\<close> of the client.\<close>

datatype callback =
  ThreadCallback
  | ThreadInitCallback
  | BufferSizeCallback "32 word"
  | SampleRateCallback "32 word"
  | SyncCallback jack_transport_state
  | XRunCallback
  | ProcessCallback "32 word"
  | TimebaseCallback jack_transport_state "32 word" bool
  | RegistrationCallback string int
  | PortRegistrationCallback "32 word" int
  | ConnectCallback "32 word" "32 word" int

definition SPA_ID_INVALID :: "32 word" where
  "SPA_ID_INVALID = 0xffffffff"

definition MAX_PORTS :: nat where
  "MAX_PORTS = 1024"

definition MAX_MIX :: nat where
  "MAX_MIX = 4096"

definition OBJECT_CHUNK :: nat where
  "OBJECT_CHUNK = 8"

definition JACK_CLIENT_NAME_SIZE :: nat where
  "JACK_CLIENT_NAME_SIZE = 64"

definition REAL_JACK_PORT_NAME_SIZE :: nat where
  "REAL_JACK_PORT_NAME_SIZE = 64 + 256"


definition EWOULDBLOCK :: int where
  "EWOULDBLOCK = 11"



definition SPA_IO_IN :: "32 word" where
  "SPA_IO_IN = 1"

definition SPA_IO_ERR :: "32 word" where
  "SPA_IO_ERR = 8"

definition SPA_IO_HUP :: "32 word" where
  "SPA_IO_HUP = 16"

definition PW_NODE_ACTIVATION_AWAKE :: "32 word" where
  "PW_NODE_ACTIVATION_AWAKE = 2"

definition PW_NODE_ACTIVATION_FINISHED :: "32 word" where
  "PW_NODE_ACTIVATION_FINISHED = 3"

definition SPA_IO_POSITION_STATE_STARTING :: "32 word" where
  "SPA_IO_POSITION_STATE_STARTING = 1"

definition SPA_IO_POSITION_STATE_RUNNING :: "32 word" where
  "SPA_IO_POSITION_STATE_RUNNING = 2"

definition SPA_IO_SEGMENT_FLAG_LOOPING :: "32 word" where
  "SPA_IO_SEGMENT_FLAG_LOOPING = 1"

definition JackPortIsInput :: "64 word" where
  "JackPortIsInput = 1"

definition JackPortIsOutput :: "64 word" where
  "JackPortIsOutput = 2"

definition JackPortIsPhysical :: "64 word" where
  "JackPortIsPhysical = 4"

definition JackPortIsTerminal :: "64 word" where
  "JackPortIsTerminal = 16"

text \<open>
  \<open>struct object\<close>. The members of its union (\<open>node\<close>, \<open>port_link\<close>, \<open>port\<close>) are fields of
  their own here: the functions below read a member only of an object whose \<open>type\<close> says
  that the member was written. An object is named by its index in the order of allocation;
  \<open>link\<close> is the membership in one of the lists of the context.
\<close>

record object =
  o_type :: interface_type
  o_id :: "32 word"
  o_node_name :: string
  o_node_priority :: "32 word"
  o_port_link_src :: "32 word"
  o_port_link_dst :: "32 word"
  o_port_flags :: "64 word"
  o_port_name :: string
  o_port_alias1 :: string
  o_port_alias2 :: string
  o_port_type_id :: "32 word"
  o_port_node_id :: "32 word"
  o_port_port_id :: "32 word"
  o_port_capture_latency_min :: "32 word"
  o_port_capture_latency_max :: "32 word"
  o_port_playback_latency_min :: "32 word"
  o_port_playback_latency_max :: "32 word"
  o_port_priority :: "32 word"

text \<open>
  \<open>struct port\<close>: a port is named by its place \<open>(direction, index)\<close> in \<open>port_pool\<close>.
  \<open>port_mix\<close> is the list \<open>port->mix\<close> of the mixes linked through \<open>mix.port_link\<close>, each
  named by its index in \<open>mix_pool\<close>; \<open>port_object\<close> is \<open>None\<close> for \<open>NULL\<close>.
\<close>

record port =
  valid :: bool
  direction :: spa_direction
  port_id :: "32 word"
  port_object :: "nat option"
  port_mix :: "nat list"
  zeroed :: bool

type_synonym port_ptr = "spa_direction \<times> nat"

text \<open>Of \<open>struct spa_io_position\<close> and \<open>struct pw_node_activation\<close>, the fields that the
  functions below read or write.\<close>

record spa_io_position =
  clock_nsec :: "64 word"
  clock_rate_denom :: "32 word"
  clock_duration :: "64 word"
  position_state :: "32 word"
  segment_flags :: "32 word"

record pw_node_activation =
  status :: "32 word"
  awake_time :: "64 word"
  finish_time :: "64 word"
  activation_position :: spa_io_position
  segment_owner :: "32 word"
  activation_xrun_count :: "32 word"
  pending_sync :: bool
  pending_new_pos :: bool

text \<open>
  The list \<open>c->free_mix\<close> of the free mixes is kept as the C code keeps it, by the
  pointers \<open>next\<close> and \<open>prev\<close> of the list head and of the member \<open>link\<close> of every mix:
  \<open>free_mix\<close> unlinks a mix that is on no list, and what that does is decided by the
  pointers that were left in the mix. The functions are \<open>spa_list_init\<close>,
  \<open>spa_list_is_empty\<close>, \<open>spa_list_first\<close>, \<open>spa_list_remove\<close>, \<open>spa_list_insert\<close> and
  \<open>spa_list_append\<close> of the SPA library, statement by statement.
\<close>

datatype link_ptr = FreeMixHead | MixLink nat

record link_store =
  link_next :: "link_ptr \<Rightarrow> link_ptr"
  link_prev :: "link_ptr \<Rightarrow> link_ptr"

definition link_init :: link_store where
  "link_init = \<lparr>link_next = (\<lambda>_. FreeMixHead), link_prev = (\<lambda>_. FreeMixHead)\<rparr>"



text \<open>\<open>elem->prev->next = elem->next; elem->next->prev = elem->prev;\<close>\<close>

definition link_remove :: "link_ptr \<Rightarrow> link_store \<Rightarrow> link_store" where
  "link_remove elem l =
     (let l1 = l\<lparr>link_next := (link_next l)(link_prev l elem := link_next l elem)\<rparr>
      in l1\<lparr>link_prev := (link_prev l1)(link_next l1 elem := link_prev l1 elem)\<rparr>)"

text \<open>\<open>elem->prev = list; elem->next = list->next; list->next = elem;
  elem->next->prev = elem;\<close>\<close>

definition link_insert :: "link_ptr \<Rightarrow> link_ptr \<Rightarrow> link_store \<Rightarrow> link_store" where
  "link_insert pos elem l =
     (let l1 = l\<lparr>link_prev := (link_prev l)(elem := pos)\<rparr>;
          l2 = l1\<lparr>link_next := (link_next l1)(elem := link_next l1 pos)\<rparr>;
          l3 = l2\<lparr>link_next := (link_next l2)(pos := elem)\<rparr>
      in l3\<lparr>link_prev := (link_prev l3)(link_next l3 elem := elem)\<rparr>)"

definition link_append :: "link_store \<Rightarrow> link_ptr \<Rightarrow> link_store" where
  "link_append l elem = link_insert (link_prev l FreeMixHead) elem l"



text \<open>
  \<open>struct client\<close> with the lists of its \<open>struct context\<close>
  (\<open>free_objects\<close>, \<open>context_ports\<close>, \<open>context_nodes\<close>, \<open>context_links\<close>, \<open>globals\<close>).

  \<^item> \<open>objects\<close> is the memory of the objects allocated so far, \<open>n_objects\<close> their number.
  \<^item> \<open>globals\<close> is the \<open>pw_map\<close> of the context: item \<open>i\<close> holds a pointer to an object, or
    \<open>NULL\<close>.
  \<^item> A callback without a result is registered or not (\<open>bool\<close>); \<open>process_callback\<close> and
    \<open>sync_callback\<close> are the functions that give their result, \<open>timebase_callback\<close> and
    \<open>timebase_arg\<close> are pointers.
  \<^item> The node activations live in shared memory, \<open>activations\<close>; \<open>activation\<close> and
    \<open>driver_activation\<close> point into it and may point to the same record.
  \<^item> \<open>free_mix\<close> holds the pointers of the list of free mixes; the other lists are the
    sequences of their elements.
  \<^item> \<open>segment_owner\<close> is \<open>segment_owner[0]\<close>. The \<open>jack_position_t\<close> of the client holds
    floating-point fields and is left out; no branch of the functions below depends on it.
\<close>

record client =
  name :: string
  objects :: "nat \<Rightarrow> object"
  n_objects :: nat
  free_objects :: "nat list"
  context_ports :: "nat list"
  context_nodes :: "nat list"
  context_links :: "nat list"
  globals :: "nat option list"
  node_id :: "32 word"
  socket_source :: "int option"
  thread_callback :: bool
  thread_init_callback :: bool
  process_callback :: "(32 word \<Rightarrow> int) option"
  bufsize_callback :: bool
  srate_callback :: bool
  registration_callback :: bool
  portregistration_callback :: bool
  connect_callback :: bool
  xrun_callback :: bool
  sync_callback :: "(jack_transport_state \<Rightarrow> int) option"
  timebase_callback :: "nat option"
  timebase_arg :: "nat option"
  position :: "spa_io_position option"
  sample_rate :: "32 word"
  buffer_frames :: "32 word"
  mix_pool :: "nat \<Rightarrow> mix"
  free_mix :: link_store
  port_pool :: "spa_direction \<Rightarrow> nat \<Rightarrow> port"
  ports :: "spa_direction \<Rightarrow> port_ptr list"
  free_ports :: "spa_direction \<Rightarrow> port_ptr list"
  driver_activation :: "nat option"
  activation :: "nat option"
  activations :: "nat \<Rightarrow> pw_node_activation"
  xrun_count :: "32 word"
  first :: bool
  thread_entered :: bool
  jack_state :: jack_transport_state
  calls :: "callback list"

definition invoke :: "callback \<Rightarrow> client \<Rightarrow> client" where
  "invoke cb c = c\<lparr>calls := calls c @ [cb]\<rparr>"

subsection \<open>Objects, mixes and ports\<close>

text \<open>
  \<open>spa_list_remove(&o->link)\<close> unlinks an object from the list of the context that holds
  it; likewise for a port and the lists \<open>ports\<close> and \<open>free_ports\<close>, and for a mix and the
  list \<open>port->mix\<close> of a port.
\<close>

definition object_unlink :: "nat \<Rightarrow> client \<Rightarrow> client" where
  "object_unlink ob c =
     c\<lparr>free_objects := remove1 ob (free_objects c),
       context_ports := remove1 ob (context_ports c),
       context_nodes := remove1 ob (context_nodes c),
       context_links := remove1 ob (context_links c)\<rparr>"

definition port_unlink :: "port_ptr \<Rightarrow> client \<Rightarrow> client" where
  "port_unlink p c =
     c\<lparr>ports := (\<lambda>d. remove1 p (ports c d)),
       free_ports := (\<lambda>d. remove1 p (free_ports c d))\<rparr>"

definition mix_port_unlink :: "nat \<Rightarrow> client \<Rightarrow> client" where
  "mix_port_unlink m c =
     c\<lparr>port_pool := (\<lambda>d i. (port_pool c d i)\<lparr>port_mix := remove1 m (port_mix (port_pool c d i))\<rparr>)\<rparr>"

definition zero_object :: object where
  "zero_object = \<lparr>o_type = PW_TYPE_INTERFACE_other, o_id = 0, o_node_name = [],
     o_node_priority = 0, o_port_link_src = 0, o_port_link_dst = 0, o_port_flags = 0,
     o_port_name = [], o_port_alias1 = [], o_port_alias2 = [], o_port_type_id = 0,
     o_port_node_id = 0, o_port_port_id = 0, o_port_capture_latency_min = 0,
     o_port_capture_latency_max = 0, o_port_playback_latency_min = 0,
     o_port_playback_latency_max = 0, o_port_priority = 0\<rparr>"

text \<open>\<open>alloc_object\<close>; \<open>calloc_ok\<close> tells whether \<open>calloc\<close> would return memory. The new
  chunk is zeroed and its \<open>OBJECT_CHUNK\<close> objects are appended to the free list in order.\<close>

definition alloc_object :: "client \<Rightarrow> bool \<Rightarrow> nat option \<times> client" where
  "alloc_object c calloc_ok =
     (if spa_list_is_empty (free_objects c) \<and> \<not> calloc_ok then (None, c)
      else
        let c1 = (if spa_list_is_empty (free_objects c)
                  then c\<lparr>objects := (\<lambda>i. if n_objects c \<le> i \<and> i < n_objects c + OBJECT_CHUNK
                                         then zero_object else objects c i),
                         n_objects := n_objects c + OBJECT_CHUNK,
                         free_objects := foldl spa_list_append (free_objects c)
                                           [n_objects c ..< n_objects c + OBJECT_CHUNK]\<rparr>
                  else c);
            ob = spa_list_first (free_objects c1)
        in (Some ob, object_unlink ob c1))"

definition free_object :: "client \<Rightarrow> nat \<Rightarrow> client" where
  "free_object c ob =
     (let c1 = object_unlink ob c
      in c1\<lparr>free_objects := spa_list_append (free_objects c1) ob\<rparr>)"



text \<open>
  \<open>free_mix\<close> (the function; the name without suffix is the field of the client). Its
  first statement, \<open>spa_list_remove(&mix->link)\<close>, acts on a mix that
  \<open>ensure_mix\<close> took off the free list: \<open>mix->link\<close> still holds the neighbours that the
  mix had then, and they are the ones that get linked to each other. The second statement
  takes the mix off the list of its port.
\<close>

definition free_mix_entry :: "client \<Rightarrow> nat \<Rightarrow> client" where
  "free_mix_entry c m =
     (let c1 = c\<lparr>free_mix := link_remove (MixLink m) (free_mix c)\<rparr>;
          c2 = mix_port_unlink m c1
      in c2\<lparr>free_mix := link_append (free_mix c2) (MixLink m)\<rparr>)"

text \<open>\<open>alloc_port\<close> does not test the result of \<open>alloc_object\<close> before it writes to the
  object.\<close>

definition alloc_port :: "client \<Rightarrow> spa_direction \<Rightarrow> bool \<Rightarrow> (port_ptr option \<times> client) outcome" where
  "alloc_port c dir calloc_ok =
     (if free_ports c dir = [] then Returns (None, c)
      else
        let p = hd (free_ports c dir);
            c1 = port_unlink p c
        in case alloc_object c1 calloc_ok of
             (None, c2) \<Rightarrow> NullDeref
           | (Some ob, c2) \<Rightarrow>
               let pt = port_pool c2 (fst p) (snd p);
                   c3 = c2\<lparr>objects := (objects c2)
                            (ob := (objects c2 ob)\<lparr>o_type := PW_TYPE_INTERFACE_Port,
                                                   o_id := SPA_ID_INVALID,
                                                   o_port_node_id := node_id c2,
                                                   o_port_port_id := port_id pt\<rparr>),
                          context_ports := spa_list_append (context_ports c2) ob\<rparr>;
                   c4 = c3\<lparr>port_pool := (port_pool c3)
                            (fst p := (port_pool c3 (fst p))
                               (snd p := pt\<lparr>valid := True, zeroed := False,
                                            port_object := Some ob, port_mix := []\<rparr>))\<rparr>
               in Returns (Some p, c4\<lparr>ports := (ports c4)(dir := ports c4 dir @ [p])\<rparr>))"

text \<open>\<open>free_port\<close>. The loop \<open>spa_list_for_each_safe\<close> visits the mixes that are on the list
  of the port when it starts.\<close>

definition free_port :: "client \<Rightarrow> port_ptr \<Rightarrow> client outcome" where
  "free_port c p =
     (let pt = port_pool c (fst p) (snd p)
      in if \<not> valid pt then Returns c
         else
           let c1 = foldl free_mix_entry c (port_mix pt);
               c2 = port_unlink p c1;
               c3 = c2\<lparr>port_pool := (port_pool c2)
                        (fst p := (port_pool c2 (fst p))
                           (snd p := (port_pool c2 (fst p) (snd p))\<lparr>valid := False\<rparr>))\<rparr>
           in case port_object (port_pool c3 (fst p) (snd p)) of
                None \<Rightarrow> NullDeref
              | Some ob \<Rightarrow>
                  let c4 = free_object c3 ob;
                      dir = direction (port_pool c4 (fst p) (snd p))
                  in Returns (c4\<lparr>free_ports := (free_ports c4)(dir := free_ports c4 dir @ [p])\<rparr>))"

text \<open>The client as \<open>jack_client_open\<close> sets it up: the memory from \<open>calloc\<close> is zero, the
  lists are initialised, every mix and every port is on its free list.\<close>

definition zero_position :: spa_io_position where
  "zero_position = \<lparr>clock_nsec = 0, clock_rate_denom = 0, clock_duration = 0,
     position_state = 0, segment_flags = 0\<rparr>"

definition zero_activation :: pw_node_activation where
  "zero_activation = \<lparr>status = 0, awake_time = 0, finish_time = 0,
     activation_position = zero_position, segment_owner = 0, activation_xrun_count = 0,
     pending_sync = False, pending_new_pos = False\<rparr>"

definition new_client :: "string \<Rightarrow> client" where
  "new_client client_name =
     \<lparr>name = take JACK_CLIENT_NAME_SIZE client_name,
      objects = (\<lambda>_. zero_object), n_objects = 0, free_objects = [],
      context_ports = [], context_nodes = [], context_links = [], globals = [],
      node_id = SPA_ID_INVALID, socket_source = None,
      thread_callback = False, thread_init_callback = False, process_callback = None,
      bufsize_callback = False, srate_callback = False, registration_callback = False,
      portregistration_callback = False, connect_callback = False, xrun_callback = False,
      sync_callback = None, timebase_callback = None, timebase_arg = None,
      position = None, sample_rate = - 1, buffer_frames = - 1,
      mix_pool = (\<lambda>_. \<lparr>mix_id = 0, buffers = replicate MAX_BUFFERS \<lparr>flags = 0, buffer_id = 0\<rparr>,
                         n_buffers = 0, queue = []\<rparr>),
      free_mix = foldl link_append link_init (map MixLink [0..<MAX_MIX]),
      port_pool = (\<lambda>d i. \<lparr>valid = False, direction = d, port_id = of_nat i,
                           port_object = None, port_mix = [], zeroed = False\<rparr>),
      ports = (\<lambda>_. []),
      free_ports = (\<lambda>d. map (Pair d) [0..<MAX_PORTS]),
      driver_activation = None, activation = None, activations = (\<lambda>_. zero_activation),
      xrun_count = 0, first = False, thread_entered = False,
      jack_state = JackTransportStopped, calls = []\<rparr>"

text \<open>The invariant of the port pool: per direction no port is on the lists twice, the
  lists hold ports of that direction only, the \<open>direction\<close> field of a port is its row in
  the pool, and the valid ports are those on the list \<open>ports\<close>; each of them has an
  object.\<close>

definition pool_wf :: "client \<Rightarrow> bool" where
  "pool_wf c \<longleftrightarrow>
     (\<forall>d. distinct (free_ports c d @ ports c d)
        \<and> (\<forall>p\<in>set (free_ports c d @ ports c d). fst p = d \<and> snd p < MAX_PORTS)
        \<and> (\<forall>i<MAX_PORTS. direction (port_pool c d i) = d
              \<and> (valid (port_pool c d i) \<longleftrightarrow> (d, i) \<in> set (ports c d))
              \<and> (valid (port_pool c d i) \<longrightarrow> port_object (port_pool c d i) \<noteq> None)))"

text \<open>\<open>n\<close> calls of \<open>alloc_port\<close> in a row, with memory for the objects: the ports returned,
  in order.\<close>

fun alloc_ports :: "client \<Rightarrow> spa_direction \<Rightarrow> nat \<Rightarrow> (port_ptr option list \<times> client) outcome" where
  "alloc_ports c dir 0 = Returns ([], c)"
| "alloc_ports c dir (Suc n) =
     (case alloc_port c dir True of
        NullDeref \<Rightarrow> NullDeref
      | Returns (p, c1) \<Rightarrow>
          (case alloc_ports c1 dir n of
             NullDeref \<Rightarrow> NullDeref
           | Returns (ps, c2) \<Rightarrow> Returns (p # ps, c2)))"

subsection \<open>The timebase\<close>


definition set_pending_new_pos :: "nat \<Rightarrow> bool \<Rightarrow> client \<Rightarrow> client" where
  "set_pending_new_pos a v c =
     c\<lparr>activations := (activations c)(a := (activations c a)\<lparr>pending_new_pos := v\<rparr>)\<rparr>"




subsection \<open>The cycle\<close>

text \<open>The outcome of \<open>read\<close> on the socket: the eight bytes of a counter, or a failure with
  its \<open>errno\<close>.\<close>

datatype read_result = ReadOk "64 word" | ReadError int

text \<open>\<open>position_to_jack\<close>, of which the transport state is kept.\<close>

definition position_to_jack :: "pw_node_activation \<Rightarrow> jack_transport_state" where
  "position_to_jack a =
     (let s = activation_position a
      in if position_state s = SPA_IO_POSITION_STATE_STARTING then JackTransportStarting
         else if position_state s = SPA_IO_POSITION_STATE_RUNNING
         then (if segment_flags s AND SPA_IO_SEGMENT_FLAG_LOOPING \<noteq> 0 then JackTransportLooping
               else JackTransportRolling)
         else JackTransportStopped)"

definition cycle_run :: "client \<Rightarrow> read_result \<Rightarrow> (32 word \<times> client) outcome" where
  "cycle_run c rd =
     (case socket_source c of
        None \<Rightarrow> NullDeref
      | Some fd \<Rightarrow>
          if rd = ReadError EWOULDBLOCK then Returns (0, c)
          else case position c of
            None \<Rightarrow> Returns (0, c)
          | Some pos \<Rightarrow>
             (case activation c of
                None \<Rightarrow> NullDeref
              | Some a \<Rightarrow>
                  let c1 = c\<lparr>activations := (activations c)
                             (a := (activations c a)\<lparr>status := PW_NODE_ACTIVATION_AWAKE,
                                                     awake_time := clock_nsec pos\<rparr>)\<rparr>;
                      c2 = (if first c1
                            then (if thread_init_callback c1 then invoke ThreadInitCallback c1
                                  else c1)\<lparr>first := False\<rparr>
                            else c1);
                      frames = (ucast (clock_duration pos) :: 32 word);
                      c3 = (if frames \<noteq> buffer_frames c2
                            then let c' = c2\<lparr>buffer_frames := frames\<rparr>
                                 in if bufsize_callback c' then invoke (BufferSizeCallback frames) c'
                                    else c'
                            else c2);
                      rate = clock_rate_denom pos;
                      c4 = (if rate \<noteq> sample_rate c3
                            then let c' = c3\<lparr>sample_rate := rate\<rparr>
                                 in if srate_callback c' then invoke (SampleRateCallback rate) c'
                                    else c'
                            else c3)
                  in case driver_activation c4 of
                       None \<Rightarrow> NullDeref
                     | Some d \<Rightarrow>
                         let c5 = c4\<lparr>jack_state := position_to_jack (activations c4 d)\<rparr>;
                             clear = (\<lambda>c'. c'\<lparr>activations := (activations c')
                                         (a := (activations c' a)\<lparr>pending_sync := False\<rparr>)\<rparr>);
                             c6 = (if pending_sync (activations c5 a)
                                   then (case sync_callback c5 of
                                           None \<Rightarrow> clear c5
                                         | Some f \<Rightarrow>
                                             let c' = invoke (SyncCallback (jack_state c5)) c5
                                             in if f (jack_state c5) \<noteq> 0 then clear c' else c')
                                   else c5);
                             c7 = (if xrun_count c6 \<noteq> activation_xrun_count (activations c6 d)
                                      \<and> xrun_count c6 \<noteq> 0 \<and> xrun_callback c6
                                   then invoke XRunCallback c6 else c6)
                         in Returns (frames,
                              c7\<lparr>xrun_count := activation_xrun_count (activations c7 d)\<rparr>)))"

text \<open>\<open>signal_sync\<close>, as far as the client's own activation goes; \<open>now\<close> is the time that
  \<open>clock_gettime\<close> gives. The copy of the output buffers (\<open>process_tee\<close>) and the wake-up of
  the linked nodes call nothing of the application and are left out.\<close>

definition signal_sync :: "client \<Rightarrow> 64 word \<Rightarrow> client outcome" where
  "signal_sync c now =
     (case activation c of
        None \<Rightarrow> NullDeref
      | Some a \<Rightarrow>
          Returns (c\<lparr>activations := (activations c)
                     (a := (activations c a)\<lparr>status := PW_NODE_ACTIVATION_FINISHED,
                                             finish_time := now\<rparr>)\<rparr>))"

definition cycle_signal :: "client \<Rightarrow> int \<Rightarrow> 64 word \<Rightarrow> client outcome" where
  "cycle_signal c st now =
     (if st = 0 \<and> timebase_callback c \<noteq> None
         \<and> (case driver_activation c of None \<Rightarrow> False
             | Some d \<Rightarrow> segment_owner (activations c d) = node_id c)
      then (case activation c of
              None \<Rightarrow> NullDeref
            | Some a \<Rightarrow>
                if pending_new_pos (activations c a) \<or> jack_state c = JackTransportRolling
                   \<or> jack_state c = JackTransportLooping
                then signal_sync
                       (set_pending_new_pos a False
                          (invoke (TimebaseCallback (jack_state c) (buffer_frames c)
                                     (pending_new_pos (activations c a))) c)) now
                else signal_sync c now)
      else signal_sync c now)"

text \<open>\<open>unhandle_socket\<close> has the loop destroy the source and sets the pointer to \<open>NULL\<close>.\<close>

definition unhandle_socket :: "client \<Rightarrow> client" where
  "unhandle_socket c = c\<lparr>socket_source := None\<rparr>"

definition on_rtsocket_condition ::
    "client \<Rightarrow> 32 word \<Rightarrow> read_result \<Rightarrow> 64 word \<Rightarrow> client outcome" where
  "on_rtsocket_condition c io_mask rd now =
     (if io_mask AND (SPA_IO_ERR OR SPA_IO_HUP) \<noteq> 0 then Returns (unhandle_socket c)
      else if thread_callback c
      then (if \<not> thread_entered c then Returns (invoke ThreadCallback (c\<lparr>thread_entered := True\<rparr>))
            else Returns c)
      else if io_mask AND SPA_IO_IN \<noteq> 0
      then (case cycle_run c rd of
              NullDeref \<Rightarrow> NullDeref
            | Returns (frames, c1) \<Rightarrow>
                (case process_callback c1 of
                   None \<Rightarrow> cycle_signal c1 0 now
                 | Some f \<Rightarrow> cycle_signal (invoke (ProcessCallback frames) c1) (f frames) now))
      else Returns c)"

text \<open>A client that is connected (socket 3, its activation at address 0) with a process
  callback registered, before the server has set a position.\<close>

definition idle_client :: client where
  "idle_client =
     (new_client ''app'')\<lparr>node_id := 7, socket_source := Some 3, activation := Some 0,
        process_callback := Some (\<lambda>_. 0)\<rparr>"

subsection \<open>The registry\<close>

text \<open>
  What \<open>registry_event_global\<close> takes from outside the library: whether \<open>calloc\<close> returns
  memory, the parsers \<open>atoi\<close>, \<open>pw_properties_parse_int\<close> and \<open>pw_properties_parse_bool\<close>, and
  the decimal digits that \<open>snprintf\<close> writes for \<open>%d\<close>.
\<close>

record environment =
  env_calloc_ok :: bool
  env_atoi :: "string \<Rightarrow> 32 word"
  env_parse_int :: "string \<Rightarrow> 32 word"
  env_parse_bool :: "string \<Rightarrow> bool"
  env_format_d :: "32 word \<Rightarrow> string"

definition PW_KEY_NODE_DESCRIPTION :: string where
  "PW_KEY_NODE_DESCRIPTION = ''node.description''"

definition PW_KEY_NODE_NICK :: string where
  "PW_KEY_NODE_NICK = ''node.nick''"

definition PW_KEY_NODE_NAME :: string where
  "PW_KEY_NODE_NAME = ''node.name''"

definition PW_KEY_PRIORITY_MASTER :: string where
  "PW_KEY_PRIORITY_MASTER = ''priority.master''"

definition PW_KEY_FORMAT_DSP :: string where
  "PW_KEY_FORMAT_DSP = ''format.dsp''"

definition PW_KEY_NODE_ID :: string where
  "PW_KEY_NODE_ID = ''node.id''"

definition PW_KEY_PORT_NAME :: string where
  "PW_KEY_PORT_NAME = ''port.name''"

definition PW_KEY_PORT_DIRECTION :: string where
  "PW_KEY_PORT_DIRECTION = ''port.direction''"

definition PW_KEY_PORT_PHYSICAL :: string where
  "PW_KEY_PORT_PHYSICAL = ''port.physical''"

definition PW_KEY_PORT_TERMINAL :: string where
  "PW_KEY_PORT_TERMINAL = ''port.terminal''"

definition PW_KEY_PORT_CONTROL :: string where
  "PW_KEY_PORT_CONTROL = ''port.control''"

definition PW_KEY_OBJECT_PATH :: string where
  "PW_KEY_OBJECT_PATH = ''object.path''"

definition PW_KEY_PORT_ALIAS :: string where
  "PW_KEY_PORT_ALIAS = ''port.alias''"

definition PW_KEY_LINK_OUTPUT_PORT :: string where
  "PW_KEY_LINK_OUTPUT_PORT = ''link.output.port''"

definition PW_KEY_LINK_INPUT_PORT :: string where
  "PW_KEY_LINK_INPUT_PORT = ''link.input.port''"

definition JACK_DEFAULT_AUDIO_TYPE :: string where
  "JACK_DEFAULT_AUDIO_TYPE = ''32 bit float mono audio''"

definition JACK_DEFAULT_MIDI_TYPE :: string where
  "JACK_DEFAULT_MIDI_TYPE = ''8 bit raw midi''"

definition JACK_DEFAULT_VIDEO_TYPE :: string where
  "JACK_DEFAULT_VIDEO_TYPE = ''32 bit float RGBA video''"

text \<open>A \<open>spa_dict\<close> is the list of its items, key and value; \<open>spa_dict_lookup\<close> gives the
  value of the first item with the key.\<close>

definition spa_dict_lookup :: "(string \<times> string) list \<Rightarrow> string \<Rightarrow> string option" where
  "spa_dict_lookup props key = map_of props key"

definition string_to_type :: "string \<Rightarrow> 32 word" where
  "string_to_type port_type =
     (if JACK_DEFAULT_AUDIO_TYPE = port_type then 0
      else if JACK_DEFAULT_MIDI_TYPE = port_type then 1
      else if JACK_DEFAULT_VIDEO_TYPE = port_type then 2
      else if ''other'' = port_type then 3
      else SPA_ID_INVALID)"

definition find_port :: "client \<Rightarrow> string \<Rightarrow> nat option" where
  "find_port c full_name = List.find (\<lambda>ob. o_port_name (objects c ob) = full_name) (context_ports c)"

text \<open>
  The \<open>pw_map\<close> of the globals, as the list of its items. \<open>pw_map_insert_at\<close> writes an
  item that exists, adds the item at the end, and refuses an id beyond the end;
  \<open>pw_map_lookup\<close> gives \<open>NULL\<close> for an id beyond the end. (That the array of the map can
  fail to grow is not modelled.)
\<close>

definition pw_map_get_size :: "nat option list \<Rightarrow> nat" where
  "pw_map_get_size m = length m"

definition pw_map_insert_at :: "nat option list \<Rightarrow> nat \<Rightarrow> nat option \<Rightarrow> nat option list" where
  "pw_map_insert_at m ident data =
     (if ident > pw_map_get_size m then m
      else if ident = pw_map_get_size m then m @ [data]
      else m[ident := data])"

definition pw_map_lookup :: "nat option list \<Rightarrow> nat \<Rightarrow> nat option" where
  "pw_map_lookup m ident = (if ident < pw_map_get_size m then m ! ident else None)"

text \<open>\<open>while (id > size) pw_map_insert_at(&c->context.globals, size++, NULL);\<close>\<close>

function pw_map_pad :: "nat option list \<Rightarrow> nat \<Rightarrow> nat option list" where
  "pw_map_pad m ident =
     (if ident > pw_map_get_size m
      then pw_map_pad (pw_map_insert_at m (pw_map_get_size m) None) ident
      else m)"
  by pat_completeness auto
termination
  by (relation "measure (\<lambda>(m, ident). ident - length m)")
    (auto simp add: pw_map_get_size_def pw_map_insert_at_def)

declare pw_map_pad.simps [simp del]

text \<open>The loop over the items of a Port announcement, which collects the flags and may
  turn the type into MIDI.\<close>

definition port_props_item ::
    "environment \<Rightarrow> 64 word \<times> 32 word \<Rightarrow> string \<times> string \<Rightarrow> 64 word \<times> 32 word" where
  "port_props_item env acc item =
     (case (acc, item) of ((fl, type_id), (key, val)) \<Rightarrow>
        if key = PW_KEY_PORT_DIRECTION
        then (if val = ''in'' then (fl OR JackPortIsInput, type_id)
              else if val = ''out'' then (fl OR JackPortIsOutput, type_id)
              else (fl, type_id))
        else if key = PW_KEY_PORT_PHYSICAL
        then (if env_parse_bool env val then (fl OR JackPortIsPhysical, type_id) else (fl, type_id))
        else if key = PW_KEY_PORT_TERMINAL
        then (if env_parse_bool env val then (fl OR JackPortIsTerminal, type_id) else (fl, type_id))
        else if key = PW_KEY_PORT_CONTROL
        then (if env_parse_bool env val then (fl, 1) else (fl, type_id))
        else (fl, type_id))"

definition port_props ::
    "environment \<Rightarrow> (string \<times> string) list \<Rightarrow> 32 word \<Rightarrow> 64 word \<times> 32 word" where
  "port_props env props type_id = foldl (port_props_item env) (0, type_id) props"

definition update_object :: "nat \<Rightarrow> (object \<Rightarrow> object) \<Rightarrow> client \<Rightarrow> client" where
  "update_object ob f c = c\<lparr>objects := (objects c)(ob := f (objects c ob))\<rparr>"

text \<open>The end of \<open>registry_event_global\<close>, which only an object that was not dropped
  reaches: the object gets its type and id, the map is filled up to the id, the object is
  entered there, and the callback for the type is called.\<close>

definition publish :: "client \<Rightarrow> nat \<Rightarrow> interface_type \<Rightarrow> 32 word \<Rightarrow> client" where
  "publish c ob type ident =
     (let c1 = update_object ob (\<lambda>x. x\<lparr>o_type := type, o_id := ident\<rparr>) c;
          c2 = c1\<lparr>globals := pw_map_insert_at (pw_map_pad (globals c1) (unat ident))
                                (unat ident) (Some ob)\<rparr>;
          x = objects c2 ob
      in case type of
           PW_TYPE_INTERFACE_Node \<Rightarrow>
             if registration_callback c2 then invoke (RegistrationCallback (o_node_name x) 1) c2
             else c2
         | PW_TYPE_INTERFACE_Port \<Rightarrow>
             if portregistration_callback c2 then invoke (PortRegistrationCallback (o_id x) 1) c2
             else c2
         | PW_TYPE_INTERFACE_Link \<Rightarrow>
             if connect_callback c2
             then invoke (ConnectCallback (o_port_link_src x) (o_port_link_dst x) 1) c2
             else c2
         | PW_TYPE_INTERFACE_other \<Rightarrow> c2)"

text \<open>The fields of a port object that are set once the object is found or allocated.\<close>

definition port_fill ::
    "(string \<times> string) list \<Rightarrow> 64 word \<Rightarrow> 32 word \<Rightarrow> 32 word \<Rightarrow> object \<Rightarrow> object" where
  "port_fill props fl type_id node x =
     (let x1 = x\<lparr>o_port_alias1 := (case spa_dict_lookup props PW_KEY_OBJECT_PATH of
                                      Some s \<Rightarrow> take REAL_JACK_PORT_NAME_SIZE s | None \<Rightarrow> []),
                 o_port_alias2 := (case spa_dict_lookup props PW_KEY_PORT_ALIAS of
                                      Some s \<Rightarrow> take REAL_JACK_PORT_NAME_SIZE s | None \<Rightarrow> []),
                 o_port_flags := fl, o_port_type_id := type_id, o_port_node_id := node\<rparr>
      in if fl AND JackPortIsOutput \<noteq> 0
         then x1\<lparr>o_port_capture_latency_min := 1024, o_port_capture_latency_max := 1024\<rparr>
         else x1\<lparr>o_port_playback_latency_min := 1024, o_port_playback_latency_max := 1024\<rparr>)"

text \<open>
  \<open>registry_event_global\<close>; \<open>props\<close> is \<open>None\<close> for \<open>NULL\<close>. The labels \<open>exit\<close> and
  \<open>exit_free\<close> are the results \<open>Returns c\<close> and \<open>Returns (free_object \<dots>)\<close>. The Node and the
  Link branch use the result of \<open>alloc_object\<close> unchecked.
\<close>

definition registry_event_global ::
    "client \<Rightarrow> environment \<Rightarrow> 32 word \<Rightarrow> interface_type \<Rightarrow> (string \<times> string) list option
       \<Rightarrow> client outcome" where
  "registry_event_global c env ident type props =
     (case props of
        None \<Rightarrow> Returns c
      | Some ps \<Rightarrow>
         (case type of
            PW_TYPE_INTERFACE_Node \<Rightarrow>
              (case alloc_object c (env_calloc_ok env) of
                 (None, c1) \<Rightarrow> NullDeref
               | (Some ob, c1) \<Rightarrow>
                   let str = (case spa_dict_lookup ps PW_KEY_NODE_DESCRIPTION of
                                Some s \<Rightarrow> s
                              | None \<Rightarrow>
                                 (case spa_dict_lookup ps PW_KEY_NODE_NICK of
                                    Some s \<Rightarrow> s
                                  | None \<Rightarrow>
                                     (case spa_dict_lookup ps PW_KEY_NODE_NAME of
                                        Some s \<Rightarrow> s
                                      | None \<Rightarrow> ''node'')));
                       c2 = update_object ob
                              (\<lambda>x. x\<lparr>o_node_name :=
                                       take JACK_CLIENT_NAME_SIZE (str @ ''/'' @ env_format_d env ident)\<rparr>) c1;
                       c3 = (case spa_dict_lookup ps PW_KEY_PRIORITY_MASTER of
                               Some s \<Rightarrow> update_object ob (\<lambda>x. x\<lparr>o_node_priority := env_parse_int env s\<rparr>) c2
                             | None \<Rightarrow> c2);
                       c4 = c3\<lparr>context_nodes := spa_list_append (context_nodes c3) ob\<rparr>
                   in Returns (publish c4 ob type ident))
          | PW_TYPE_INTERFACE_Port \<Rightarrow>
              let type_id = string_to_type (case spa_dict_lookup ps PW_KEY_FORMAT_DSP of
                                              Some s \<Rightarrow> s | None \<Rightarrow> ''other'')
              in if type_id = SPA_ID_INVALID then Returns c
                 else
                  (case spa_dict_lookup ps PW_KEY_NODE_ID of
                     None \<Rightarrow> Returns c
                   | Some ns \<Rightarrow>
                      (case spa_dict_lookup ps PW_KEY_PORT_NAME of
                         None \<Rightarrow> Returns c
                       | Some str \<Rightarrow>
                          let node = env_atoi env ns;
                              fl = fst (port_props env ps type_id);
                              type_id' = snd (port_props env ps type_id);
                              found = (if node = node_id c
                                       then find_port c (take 1023 (name c @ '':'' @ str))
                                       else None)
                          in (case found of
                                Some ob \<Rightarrow>
                                  Returns (publish (update_object ob (port_fill ps fl type_id' node) c)
                                             ob type ident)
                              | None \<Rightarrow>
                                 (case alloc_object c (env_calloc_ok env) of
                                    (None, c1) \<Rightarrow> Returns c
                                  | (Some ob, c1) \<Rightarrow>
                                      let c2 = c1\<lparr>context_ports := spa_list_append (context_ports c1) ob\<rparr>
                                      in (case pw_map_lookup (globals c2) (unat node) of
                                            None \<Rightarrow> Returns (free_object c2 ob)
                                          | Some ot \<Rightarrow>
                                              if o_type (objects c2 ot) \<noteq> PW_TYPE_INTERFACE_Node
                                              then Returns (free_object c2 ob)
                                              else
                                                let c3 = update_object ob
                                                      (\<lambda>x. x\<lparr>o_port_name := take REAL_JACK_PORT_NAME_SIZE
                                                                 (o_node_name (objects c2 ot) @ '':'' @ str),
                                                             o_port_port_id := SPA_ID_INVALID,
                                                             o_port_priority := o_node_priority (objects c2 ot)\<rparr>) c2
                                                in Returns (publish
                                                     (update_object ob (port_fill ps fl type_id' node) c3)
                                                     ob type ident))))))
          | PW_TYPE_INTERFACE_Link \<Rightarrow>
              (case alloc_object c (env_calloc_ok env) of
                 (None, c1) \<Rightarrow> NullDeref
               | (Some ob, c1) \<Rightarrow>
                   let c2 = c1\<lparr>context_links := spa_list_append (context_links c1) ob\<rparr>
                   in (case spa_dict_lookup ps PW_KEY_LINK_OUTPUT_PORT of
                         None \<Rightarrow> Returns (free_object c2 ob)
                       | Some s \<Rightarrow>
                           let c3 = update_object ob (\<lambda>x. x\<lparr>o_port_link_src := env_parse_int env s\<rparr>) c2
                           in (case spa_dict_lookup ps PW_KEY_LINK_INPUT_PORT of
                                 None \<Rightarrow> Returns (free_object c3 ob)
                               | Some d \<Rightarrow>
                                   Returns (publish
                                     (update_object ob (\<lambda>x. x\<lparr>o_port_link_dst := env_parse_int env d\<rparr>) c3)
                                     ob type ident))))
          | PW_TYPE_INTERFACE_other \<Rightarrow> Returns c))"

text \<open>\<open>registry_event_global_remove\<close>: the object stays in the map.\<close>

definition registry_event_global_remove :: "client \<Rightarrow> 32 word \<Rightarrow> client" where
  "registry_event_global_remove c ident =
     (case pw_map_lookup (globals c) (unat ident) of
        None \<Rightarrow> c
      | Some ob \<Rightarrow>
          let x = objects c ob;
              c1 = (case o_type x of
                      PW_TYPE_INTERFACE_Node \<Rightarrow>
                        if registration_callback c then invoke (RegistrationCallback (o_node_name x) 0) c
                        else c
                    | PW_TYPE_INTERFACE_Port \<Rightarrow>
                        if portregistration_callback c then invoke (PortRegistrationCallback (o_id x) 0) c
                        else c
                    | PW_TYPE_INTERFACE_Link \<Rightarrow>
                        if connect_callback c
                        then invoke (ConnectCallback (o_port_link_src x) (o_port_link_dst x) 0) c
                        else c
                    | PW_TYPE_INTERFACE_other \<Rightarrow> c)
          in free_object c1 ob)"

text \<open>An environment for the examples, with memory, and parsers that give 0.\<close>

definition example_environment :: environment where
  "example_environment = \<lparr>env_calloc_ok = True, env_atoi = (\<lambda>_. 0), env_parse_int = (\<lambda>_. 0),
     env_parse_bool = (\<lambda>_. False), env_format_d = (\<lambda>_. ''0'')\<rparr>"

text \<open>A client that has asked for every callback of the registry.\<close>

definition listening_client :: client where
  "listening_client = (new_client ''app'')\<lparr>registration_callback := True,
     portregistration_callback := True, connect_callback := True\<rparr>"

section \<open>Properties of the MIDI port buffer\<close>

lemmas midi_consts = sizeof_midi_buffer_def sizeof_midi_event_def MIDI_INLINE_MAX_def
  MAX_BUFFER_FRAMES_def event_addr_def

lemmas midi_eval = jack_midi_event_write_def jack_midi_event_reserve_def reserve_failed_def
  jack_midi_max_event_size_def midi_used_size_def init_buffer_def zeroed_memory_def
  empty_port_buffer_def jack_midi_clear_buffer_def Let_def
  ev_time_def ev_size_def ev_byte_offset_def ev_inline_data_def
  load16_def store16_def load32_def store32_def memcpy_def MIDI_BUFFER_MAGIC_def
  word_le_nat_alt word_less_nat_alt

subsection \<open>Word arithmetic\<close>

lemma uint_lt_of_unat: "unat (w :: 'a::len word) < n \<Longrightarrow> uint w < int n"
  by (metis of_nat_less_iff uint_nat)

lemma scast_nonneg32: 
  assumes "unat (w :: 32 word) < 2 ^ 31" shows "(scast w :: 64 word) = ucast w"
proof -
  have h: "uint w < 2 ^ 31" using uint_lt_of_unat[OF assms] by simp
  have a: "- (2 ^ 31) \<le> uint w" by (rule order_trans[of _ 0]) simp_all
  have "signed_take_bit 31 (uint w) = uint w" using a h by (rule signed_take_bit_int_eq_self)
  hence "sint w = uint w" by (simp add: sint_uint)
  thus ?thesis by (simp only: scast_eq ucast_eq)
qed

lemma unat_ucast_32_64: "unat (ucast (w :: 32 word) :: 64 word) = unat w"
  by (simp add: unsigned_ucast_eq take_bit_nat_eq_self_iff) (rule order_less_trans[OF unsigned_less], simp)

lemma unat32_bound: "unat (w :: 32 word) < 4294967296"
  using unsigned_less[of w] by simp

lemma unat_Suc32: "unat (w :: 32 word) < 2 ^ 32 - 1 \<Longrightarrow> unat (w + 1) = unat w + 1"
  by (simp add: unat_word_ariths)

lemma unat_used_size:
  assumes "midi_sane mb"
  shows "unat (midi_used_size mb) = header_heap_usage mb"
proof -
  have wp: "unat (write_pos mb) < 2 ^ 31" and ec: "unat (event_count mb) < 2 ^ 32 - 1"
    using assms by (simp_all add: midi_sane_def)
  have b1: "unat (write_pos mb) < 4294967296" by (rule unat32_bound)
  show ?thesis
    using b1 ec
    by (simp add: midi_used_size_def header_heap_usage_def sizeof_midi_buffer_def sizeof_midi_event_def
        scast_nonneg32[OF wp] unat_word_ariths unat_ucast_32_64 unat_Suc32)
qed

lemma max_event_size_nat:
  assumes "midi_sane mb"
  shows "unat (jack_midi_max_event_size mb) =
     (if spec_remaining_capacity mb < 0 then 0 else max 4 (nat (spec_remaining_capacity mb)))"
proof -
  define n where "n = unat (buffer_size mb)"
  define h where "h = header_heap_usage mb"
  have bs: "unat (buffer_size mb) < 2 ^ 31" using assms by (simp add: midi_sane_def)
  have u: "unat (midi_used_size mb) = h" unfolding h_def by (rule unat_used_size[OF assms])
  have b: "unat (scast (buffer_size mb) :: 64 word) = n"
    by (simp add: scast_nonneg32[OF bs] unat_ucast_32_64 n_def)
  have r: "spec_remaining_capacity mb = int n - int h"
    by (simp add: spec_remaining_capacity_def n_def h_def)
  show ?thesis
  proof (cases "midi_used_size mb > scast (buffer_size mb)")
    case True
    then show ?thesis 
      by (simp add: jack_midi_max_event_size_def r word_less_nat_alt u b)
  next
    case False
    hence le: "midi_used_size mb \<le> scast (buffer_size mb)" by simp
    have d: "unat (scast (buffer_size mb) - midi_used_size mb) = n - h"
      by (simp add: unat_sub[OF le] u b)
    from le have le': "h \<le> n"
      by (simp add: word_le_nat_alt u b)
    show ?thesis using False le'
      by (simp add: jack_midi_max_event_size_def r word_less_nat_alt d u b
          MIDI_INLINE_MAX_def max_def Let_def nat_diff_distrib')
  qed
qed

subsection \<open>Reservation\<close>

text \<open>
  C1, as amended. \<open>jack_midi_event_reserve\<close> returns no pointer exactly when the time is
  not below the \<open>nframes\<close> field of the buffer header, or events are stored and the time
  is below the time of the last one, or the size is zero, or the size exceeds
  \<open>jack_midi_max_event_size\<close>. On every failure the buffer is left as it was but for
  \<open>lost_events\<close>, which grows by one; on success \<open>lost_events\<close> is unchanged. For a
  buffer whose size and write position are non-negative and whose event count is below
  \<open>2^32 - 1\<close> (\<open>midi_sane\<close>), \<open>jack_midi_max_event_size\<close> is 0 when the next event header
  does not fit, and otherwise the bytes that remain after it, but never less than
  \<open>MIDI_INLINE_MAX\<close> = 4: an event of up to four bytes lives in its header and needs no
  further room. The \<open>nframes\<close> field is not the length of the period: \<open>init_buffer\<close> is
  called with \<open>MAX_BUFFER_FRAMES\<close> at both of its call sites and stores 8192, and
  \<open>jack_midi_clear_buffer\<close> keeps the field.
\<close>

theorem reserve_fails_exactly_when:
  "(fst (jack_midi_event_reserve mb time data_size) = None) =
     (nframes mb \<le> time
      \<or> (0 < event_count mb \<and> time < ucast (ev_time mb (unat (event_count mb - 1))))
      \<or> data_size = 0
      \<or> jack_midi_max_event_size mb < data_size)
   \<and> (if fst (jack_midi_event_reserve mb time data_size) = None
      then snd (jack_midi_event_reserve mb time data_size) = mb\<lparr>lost_events := lost_events mb + 1\<rparr>
      else lost_events (snd (jack_midi_event_reserve mb time data_size)) = lost_events mb)
   \<and> (midi_sane mb \<longrightarrow>
        unat (jack_midi_max_event_size mb) =
          (if spec_remaining_capacity mb < 0 then 0
           else max 4 (nat (spec_remaining_capacity mb))))
   \<and> nframes (init_buffer mb (of_nat MAX_BUFFER_FRAMES)) = 8192
   \<and> nframes (jack_midi_clear_buffer mb) = nframes mb"
  by (simp add: jack_midi_event_reserve_def reserve_failed_def Let_def max_event_size_nat
      init_buffer_def jack_midi_clear_buffer_def MAX_BUFFER_FRAMES_def)

text \<open>The theorem at the port buffer that \<open>init_buffer\<close> sets up: a reservation at
  \<open>time = nframes\<close> fails and is counted, and the largest event is 32736 bytes.\<close>

theorem reserve_fails_exactly_when_witness:
  "fst (jack_midi_event_reserve empty_port_buffer 8192 1) = None
   \<and> lost_events (snd (jack_midi_event_reserve empty_port_buffer 8192 1)) = 1
   \<and> midi_sane empty_port_buffer
   \<and> unat (jack_midi_max_event_size empty_port_buffer) = 32736"
proof -
  have s: "midi_sane empty_port_buffer"
    by (simp add: midi_sane_def midi_eval midi_consts)
  have n: "nframes empty_port_buffer = 8192" "lost_events empty_port_buffer = 0"
    by (simp_all add: midi_eval midi_consts)
  have r: "spec_remaining_capacity empty_port_buffer = 32736"
    by (simp add: spec_remaining_capacity_def header_heap_usage_def midi_eval midi_consts)
  show ?thesis
    using reserve_fails_exactly_when[of empty_port_buffer 8192 1] s n r
    by (simp split: if_splits)
qed

text \<open>On the same port buffer a reservation at time 1024, the length of a period of 1024
  frames, is granted: the bound on the time is the 8192 of the header, whatever the
  period.\<close>

lemma reserve_at_shorter_period_length:
  "fst (jack_midi_event_reserve empty_port_buffer 1024 1) = Some 28
   \<and> lost_events (snd (jack_midi_event_reserve empty_port_buffer 1024 1)) = 0"
  by (simp add: midi_eval midi_consts)

text \<open>C1 as stated fails where fewer than four bytes remain. After one event of 32726
  bytes the port buffer has 2 bytes left behind the next header, and a reservation of 3
  bytes, one more than remains, is granted.\<close>

lemma nearly_full_buffer:
  "spec_remaining_capacity nearly_full_port_buffer = 2
   \<and> nframes nearly_full_port_buffer = 8192
   \<and> event_count nearly_full_port_buffer = 1
   \<and> ev_time nearly_full_port_buffer 0 = 0
   \<and> fst (jack_midi_event_reserve nearly_full_port_buffer 0 3) = Some 36"
  by (simp add: nearly_full_port_buffer_def midi_eval midi_consts spec_remaining_capacity_def
      header_heap_usage_def)

theorem reserve_beyond_remaining_capacity_counterexample:
  "\<not> (\<forall>mb time data_size.
        (fst (jack_midi_event_reserve mb time data_size) = None) =
          (nframes mb \<le> time
           \<or> (0 < event_count mb \<and> time < ucast (ev_time mb (unat (event_count mb - 1))))
           \<or> data_size = 0
           \<or> spec_remaining_capacity mb < int (unat data_size)))"
proof
  let ?mb = "nearly_full_port_buffer"
  assume "\<forall>mb time data_size.
        (fst (jack_midi_event_reserve mb time data_size) = None) =
          (nframes mb \<le> time
           \<or> (0 < event_count mb \<and> time < ucast (ev_time mb (unat (event_count mb - 1))))
           \<or> data_size = 0
           \<or> spec_remaining_capacity mb < int (unat data_size))"
  then have "(fst (jack_midi_event_reserve ?mb 0 3) = None) =
          (nframes ?mb \<le> 0
           \<or> (0 < event_count ?mb \<and> 0 < (ucast (ev_time ?mb (unat (event_count ?mb - 1))) :: 32 word))
           \<or> (3 :: 64 word) = 0
           \<or> spec_remaining_capacity ?mb < int (unat (3 :: 64 word)))"
    by blast
  moreover have "fst (jack_midi_event_reserve ?mb 0 3) \<noteq> None"
    using nearly_full_buffer by simp
  moreover have "spec_remaining_capacity ?mb < int (unat (3 :: 64 word))"
    using nearly_full_buffer by simp
  ultimately show False by blast
qed

subsection \<open>Writing\<close>

lemma read_bytes_memcpy: "read_bytes (memcpy p data m) p (length data) = data"
  by (rule nth_equalityI) (simp_all add: read_bytes_def memcpy_def)

text \<open>
  C8, as amended. When the reservation succeeds, \<open>jack_midi_event_write\<close> returns 0, the
  reserved region holds exactly the payload, no byte outside it differs from what the
  reservation left, and \<open>lost_events\<close> is unchanged. When the reservation fails it returns
  \<open>ENOBUFS\<close>, which is a positive number (it is not negated), and the buffer differs from the
  one passed in only by \<open>lost_events\<close>, which has grown by one.
\<close>

theorem midi_event_write_result:
  "(case jack_midi_event_reserve mb time (of_nat (length data)) of
      (Some p, mb') \<Rightarrow>
        jack_midi_event_write mb time data = (0, mb'\<lparr>mem := memcpy p data (mem mb')\<rparr>)
        \<and> read_bytes (mem (snd (jack_midi_event_write mb time data))) p (length data) = data
        \<and> (\<forall>a. a < p \<or> p + length data \<le> a
              \<longrightarrow> mem (snd (jack_midi_event_write mb time data)) a = mem mb' a)
        \<and> lost_events (snd (jack_midi_event_write mb time data)) = lost_events mb
    | (None, mb') \<Rightarrow>
        jack_midi_event_write mb time data = (ENOBUFS, mb\<lparr>lost_events := lost_events mb + 1\<rparr>))
   \<and> 0 < ENOBUFS"
proof -
  have "0 < ENOBUFS" by (simp add: ENOBUFS_def)
  moreover have "lost_events mb' = lost_events mb"
    if "jack_midi_event_reserve mb time (of_nat (length data)) = (Some p, mb')" for p mb'
    using that reserve_fails_exactly_when[of mb time "of_nat (length data)"]
    by (simp split: if_splits)
  moreover have "mb' = mb\<lparr>lost_events := lost_events mb + 1\<rparr>"
    if "jack_midi_event_reserve mb time (of_nat (length data)) = (None, mb')" for mb'
    using that reserve_fails_exactly_when[of mb time "of_nat (length data)"]
    by (simp split: if_splits)
  moreover have "memcpy p data m a = m a" if "a < p \<or> p + length data \<le> a" for p m a
    using that by (auto simp add: memcpy_def)
  ultimately show ?thesis
    by (auto simp add: jack_midi_event_write_def read_bytes_memcpy
        split: prod.splits option.splits)
qed

theorem midi_event_write_result_witness:
  "jack_midi_event_write empty_port_buffer 8192 [0x90] =
     (ENOBUFS, empty_port_buffer\<lparr>lost_events := 1\<rparr>)
   \<and> fst (jack_midi_event_write empty_port_buffer 5 [0x90, 0x3c, 0x40]) = 0
   \<and> read_bytes (mem (snd (jack_midi_event_write empty_port_buffer 5 [0x90, 0x3c, 0x40]))) 28
        (length [0x90 :: 8 word, 0x3c, 0x40])
       = [0x90, 0x3c, 0x40]"
proof -
  have f: "jack_midi_event_reserve empty_port_buffer 8192 (of_nat (length [0x90 :: 8 word]))
      = (None, empty_port_buffer\<lparr>lost_events := 1\<rparr>)"
    by (simp add: midi_eval midi_consts)
  have g: "fst (jack_midi_event_reserve empty_port_buffer 5
      (of_nat (length [0x90 :: 8 word, 0x3c, 0x40]))) = Some 28"
    by (simp add: midi_eval midi_consts)
  have l: "lost_events empty_port_buffer = 0" by (simp add: midi_eval)
  show ?thesis
    using midi_event_write_result[of empty_port_buffer 8192 "[0x90]"]
      midi_event_write_result[of empty_port_buffer 5 "[0x90, 0x3c, 0x40]"] f g l
    by (auto split: prod.splits option.splits)
qed

text \<open>C8 as stated asks for a negative code; the code returned for a rejected event is
  105.\<close>

theorem midi_event_write_negative_counterexample:
  "\<not> (\<forall>mb time data. fst (jack_midi_event_reserve mb time (of_nat (length data))) = None
        \<longrightarrow> fst (jack_midi_event_write mb time data) < 0)"
proof
  assume "\<forall>mb time data. fst (jack_midi_event_reserve mb time (of_nat (length data))) = None
        \<longrightarrow> fst (jack_midi_event_write mb time data) < 0"
  then have "fst (jack_midi_event_reserve empty_port_buffer 8192 (of_nat (length [0x90 :: 8 word]))) = None
        \<longrightarrow> fst (jack_midi_event_write empty_port_buffer 8192 [0x90]) < 0"
    by blast
  then show False by (simp add: midi_eval midi_consts ENOBUFS_def)
qed

subsection \<open>The heap and the event headers\<close>

text \<open>
  C10 fails on a buffer that is filled to the last byte. In the port buffer of 32768
  bytes, an event of 32736 bytes uses all the room behind its header. The reservation is
  granted at offset 31, but the header region (24 bytes and one event header of 8) ends at
  32: byte 31 is both the last byte of the event's \<open>byte_offset\<close> field and the first byte
  of its payload. Writing a payload that starts with \<open>0xff\<close> turns the stored offset 31
  into \<open>0xff00001f\<close>, far outside the buffer.
\<close>

theorem heap_overlaps_header_when_full:
  "fst (jack_midi_event_reserve empty_port_buffer 0 32736) = Some 31
   \<and> header_region_end (snd (jack_midi_event_reserve empty_port_buffer 0 32736)) = 32
   \<and> ev_byte_offset (snd (jack_midi_event_reserve empty_port_buffer 0 32736)) 0 = 31
   \<and> ev_byte_offset
        (snd (jack_midi_event_write empty_port_buffer 0 (0xff # replicate 32735 0))) 0
       = 0xff00001f
   \<and> midi_event_data
        (snd (jack_midi_event_write empty_port_buffer 0 (0xff # replicate 32735 0))) 0
       = 4278190111"
  by (simp add: midi_eval midi_consts header_region_end_def midi_event_data_def)

subsection \<open>The merge of wire sequences\<close>

lemma find_next_None:
  "find_next i cs nxt = None \<longleftrightarrow> nxt = None \<and> (\<forall>c\<in>set cs. c = [])"
  by (induction cs arbitrary: i nxt) (auto split: list.splits option.splits)

lemma find_next_Some:
  "find_next i cs nxt = Some (j, y) \<Longrightarrow>
     (\<forall>c\<in>set cs. c \<noteq> [] \<longrightarrow> offset y \<le> offset (hd c))
     \<and> (\<forall>k z. nxt = Some (k, z) \<longrightarrow> offset y \<le> offset z)
     \<and> (nxt = Some (j, y)
        \<or> (i \<le> j \<and> j - i < length cs \<and> cs ! (j - i) \<noteq> [] \<and> hd (cs ! (j - i)) = y
           \<and> (\<forall>c\<in>set (take (j - i) cs). c \<noteq> [] \<longrightarrow> offset y < offset (hd c))
           \<and> (\<forall>k z. nxt = Some (k, z) \<longrightarrow> offset y < offset z)))"
proof (induction cs arbitrary: i nxt)
  case Nil
  then show ?case by simp
next
  case (Cons a cs)
  show ?case
  proof (cases a)
    case Nil
    with Cons.prems have "find_next (Suc i) cs nxt = Some (j, y)" by simp
    from Cons.IH[OF this] Nil show ?thesis
      by (auto simp add: Suc_diff_le take_Cons' nth_Cons')
  next
    case (Cons x xs)
    note a = this
    show ?thesis
    proof (cases nxt)
      case None
      with a Cons.prems have "find_next (Suc i) cs (Some (i, x)) = Some (j, y)" by simp
      from Cons.IH[OF this] a None show ?thesis
        by (auto simp add: Suc_diff_le take_Cons' nth_Cons')
    next
      case (Some kz)
      obtain k z where kz: "kz = (k, z)" by (cases kz)
      show ?thesis
      proof (cases "offset x < offset z")
        case True
        with a Some kz Cons.prems have "find_next (Suc i) cs (Some (i, x)) = Some (j, y)" by simp
        from Cons.IH[OF this] a Some kz True show ?thesis
          by (auto simp add: Suc_diff_le take_Cons' nth_Cons')
      next
        case False
        with a Some kz Cons.prems have "find_next (Suc i) cs (Some (k, z)) = Some (j, y)" by simp
        from Cons.IH[OF this] a Some kz False show ?thesis
          by (auto simp add: Suc_diff_le take_Cons' nth_Cons')
      qed
    qed
  qed
qed


lemma sort_key_pick_first:
  assumes "\<forall>a\<in>set A. f x < f a" and "\<forall>b\<in>set B. f x \<le> f b"
  shows "sort_key f (A @ x # B) = x # sort_key f (A @ B)"
  using assms
proof (induction A)
  case Nil
  then show ?case by (simp add: insort_is_Cons)
next
  case (Cons a A)
  then have "sort_key f (A @ x # B) = x # sort_key f (A @ B)" by simp
  moreover have "\<not> f a \<le> f x" using Cons.prems by auto
  ultimately show ?case by simp
qed

lemma sorted_hd_le:
  "sorted (map f s) \<Longrightarrow> b \<in> set s \<Longrightarrow> f (hd s) \<le> f b"
  by (cases s) auto

lemma find_next_first:
  assumes f: "find_next 0 c None = Some (i, x)"
  shows "i < length c \<and> c ! i \<noteq> [] \<and> hd (c ! i) = x
     \<and> (\<forall>s\<in>set c. s \<noteq> [] \<longrightarrow> offset x \<le> offset (hd s))
     \<and> (\<forall>s\<in>set (take i c). s \<noteq> [] \<longrightarrow> offset x < offset (hd s))"
  using find_next_Some[OF f] by simp

text \<open>
  C3, as amended. For wire sequences that are each ordered by offset, \<open>convert_to_midi\<close>
  returns (it is a total function: every step removes one control from one cursor, and it
  stops when all cursors are exhausted) and hands the controls to
  \<open>jack_midi_event_write\<close> in the order of a stable sort by offset of the concatenated
  sequences: ascending offsets, and among equal offsets the sequence with the lower index
  first, then the order within the sequence.
\<close>

theorem convert_to_midi_merges:
  "\<forall>s\<in>set seqs. sorted (map offset s) \<Longrightarrow>
     convert_to_midi seqs midi = foldl midi_deliver midi (sort_key offset (concat seqs))"
proof (induction seqs midi rule: convert_to_midi.induct)
  case (1 c midi)
  show ?case
  proof (cases "find_next 0 c None")
    case None
    then have cc: "concat c = []" by (simp add: find_next_None)
    show ?thesis by (subst convert_to_midi.simps) (simp add: None cc)
  next
    case (Some ix)
    obtain i x where ix: "ix = (i, x)" by (cases ix)
    from Some ix have f: "find_next 0 c None = Some (i, x)" by simp
    note fn = find_next_first[OF f]
    from fn obtain rest where ci: "c ! i = x # rest" by (cases "c ! i") auto
    have fn_le: "offset x \<le> offset (hd s)" if "s \<in> set c" "s \<noteq> []" for s
      using fn that by simp
    have fn_lt: "offset x < offset (hd s)" if "s \<in> set (take i c)" "s \<noteq> []" for s
      using fn that by simp
    have i: "i < length c" using fn by simp
    let ?A = "concat (take i c)" and ?B = "rest @ concat (drop (Suc i) c)"
    have "concat c = concat (take i c @ c ! i # drop (Suc i) c)"
      by (rule arg_cong[OF id_take_nth_drop[OF i]])
    then have c_split: "concat c = ?A @ x # ?B"
      by (simp add: ci)
    have "c[i := tl (c ! i)] = take i c @ tl (c ! i) # drop (Suc i) c"
      by (rule upd_conv_take_nth_drop[OF i])
    then have "concat (c[i := tl (c ! i)]) = concat (take i c @ tl (c ! i) # drop (Suc i) c)"
      by (rule arg_cong)
    also have "\<dots> = ?A @ ?B"
      by (simp add: ci)
    finally have c'_split: "concat (c[i := tl (c ! i)]) = ?A @ ?B" .
    have sorted_all: "offset (hd s) \<le> offset b" if "s \<in> set c" "b \<in> set s" for s b
    proof -
      have "sorted (map offset s)" using "1.prems" that(1) by simp
      then show ?thesis using that(2) by (rule sorted_hd_le)
    qed
    have A: "\<forall>a\<in>set ?A. offset x < offset a"
    proof
      fix a assume "a \<in> set ?A"
      then obtain s where s: "s \<in> set (take i c)" "a \<in> set s" by auto
      then have "s \<noteq> []" by auto
      with s have "offset x < offset (hd s)" by (simp add: fn_lt)
      moreover have "s \<in> set c" using s(1) by (rule in_set_takeD)
      then have "offset (hd s) \<le> offset a"
        using s(2) by (rule sorted_all)
      ultimately show "offset x < offset a" by simp
    qed
    have B: "\<forall>b\<in>set ?B. offset x \<le> offset b"
    proof
      fix b assume b: "b \<in> set ?B"
      show "offset x \<le> offset b"
      proof (cases "b \<in> set rest")
        case True
        have "c ! i \<in> set c" using i by simp
        from sorted_all[OF this, of b] True ci show ?thesis by simp
      next
        case False
        with b obtain s where s: "s \<in> set (drop (Suc i) c)" "b \<in> set s" by auto
        then have ne: "s \<noteq> []" by auto
        have sc: "s \<in> set c" using s(1) by (rule in_set_dropD)
        have "offset x \<le> offset (hd s)" using sc ne by (rule fn_le)
        moreover have "offset (hd s) \<le> offset b" using sc s(2) by (rule sorted_all)
        ultimately show ?thesis by simp
      qed
    qed
    have step: "sort_key offset (concat c) = x # sort_key offset (concat (c[i := tl (c ! i)]))"
      unfolding c_split c'_split by (rule sort_key_pick_first[OF A B])
    have sorted': "\<forall>s\<in>set (c[i := tl (c ! i)]). sorted (map offset s)"
    proof
      fix s assume "s \<in> set (c[i := tl (c ! i)])"
      moreover have "set (c[i := tl (c ! i)]) \<subseteq> insert (tl (c ! i)) (set c)"
        by (rule set_update_subset_insert)
      ultimately have "s \<in> set c \<or> s = tl (c ! i)" by blast
      moreover have "sorted (map offset (c ! i))" using "1.prems" i by simp
      then have "sorted (map offset (tl (c ! i)))" using ci by simp
      ultimately show "sorted (map offset s)" using "1.prems" by auto
    qed
    have "convert_to_midi c midi = convert_to_midi (c[i := tl (c ! i)]) (midi_deliver midi x)"
      using f by (subst convert_to_midi.simps) simp
    also have "\<dots> = foldl midi_deliver (midi_deliver midi x) (sort_key offset (concat (c[i := tl (c ! i)])))"
      using "1.IH"[OF Some ix[symmetric] sorted'] .
    finally show ?thesis by (simp add: step)
  qed
qed



text \<open>The example of the specification, evaluated: the event at time 2 of the first
  sequence comes before the event at time 2 of the second.\<close>

lemmas midi_read_eval = midi_events_def midi_event_at_def jack_midi_event_get_def
  jack_midi_get_event_count_def midi_event_data_def read_bytes_def upt_conv_Cons

lemma example_merge:
  "midi_events (foldl midi_deliver (jack_midi_clear_buffer empty_port_buffer)
       (sort_key offset (concat [example_seq_a, example_seq_b])))
     = [(1, 1, [0x62]), (2, 1, [0x61]), (2, 1, [0x63])]"
  by (simp add: example_seq_a_def example_seq_b_def midi_deliver_def SPA_CONTROL_Midi_def
      midi_eval midi_consts midi_read_eval)


theorem convert_to_midi_merges_witness:
  "sorted (map offset example_seq_a) \<and> sorted (map offset example_seq_b)
   \<and> midi_events (convert_to_midi [example_seq_a, example_seq_b]
         (jack_midi_clear_buffer empty_port_buffer))
       = [(1, 1, [0x62]), (2, 1, [0x61]), (2, 1, [0x63])]"
proof -
  have s: "\<forall>s\<in>set [example_seq_a, example_seq_b]. sorted (map offset s)"
    by (simp add: example_seq_a_def example_seq_b_def word_le_nat_alt)
  show ?thesis
    using convert_to_midi_merges[OF s, of "jack_midi_clear_buffer empty_port_buffer"]
      example_merge s
    by simp
qed

lemma example_merge_direct:
  "midi_events (convert_to_midi [example_seq_a, example_seq_b]
         (jack_midi_clear_buffer empty_port_buffer))
       = [(1, 1, [0x62]), (2, 1, [0x61]), (2, 1, [0x63])]"
  by (simp add: convert_to_midi.simps example_seq_a_def example_seq_b_def midi_deliver_def
      SPA_CONTROL_Midi_def midi_eval midi_consts midi_read_eval)

theorem merge_example_order_counterexample:
  "midi_events (convert_to_midi [example_seq_a, example_seq_b]
         (jack_midi_clear_buffer empty_port_buffer))
       \<noteq> [(1, 1, [0x62]), (2, 1, [0x63]), (2, 1, [0x61])]"
  by (simp add: example_merge_direct)

subsection \<open>Memory\<close>

lemma load16_store16 [simp]: "load16 (store16 a w m) a = w"
  apply (simp add: load16_def store16_def)
  apply (rule bit_word_eqI)
  apply (auto simp add: bit_simps)
  done

lemma load32_store32 [simp]: "load32 (store32 a w m) a = w"
  apply (simp add: load32_def store32_def)
  apply (rule bit_word_eqI)
  apply (auto simp add: bit_simps)
  subgoal for n by (cases "n < 24") simp_all
  done

lemma store16_other: "x \<noteq> a \<Longrightarrow> x \<noteq> a + 1 \<Longrightarrow> store16 a w m x = m x"
  by (simp add: store16_def)

lemma store32_other:
  "x \<noteq> a \<Longrightarrow> x \<noteq> a + 1 \<Longrightarrow> x \<noteq> a + 2 \<Longrightarrow> x \<noteq> a + 3 \<Longrightarrow> store32 a w m x = m x"
  by (simp add: store32_def)

lemma memcpy_other: "x < p \<or> p + length d \<le> x \<Longrightarrow> memcpy p d m x = m x"
  by (auto simp add: memcpy_def)

lemma load16_cong: "m a = m' a \<Longrightarrow> m (a + 1) = m' (a + 1) \<Longrightarrow> load16 m a = load16 m' a"
  by (simp add: load16_def)

lemma load32_cong:
  "m a = m' a \<Longrightarrow> m (a + 1) = m' (a + 1) \<Longrightarrow> m (a + 2) = m' (a + 2) \<Longrightarrow> m (a + 3) = m' (a + 3)
    \<Longrightarrow> load32 m a = load32 m' a"
  by (simp add: load32_def)

lemma read_bytes_cong:
  "(\<And>k. k < n \<Longrightarrow> m (p + k) = m' (p + k)) \<Longrightarrow> read_bytes m p n = read_bytes m' p n"
  by (simp add: read_bytes_def)

subsection \<open>Events that stay in place\<close>

lemma heap_bytes_append: "heap_bytes (xs @ ys) = heap_bytes xs + heap_bytes ys"
  by (simp add: heap_bytes_def)

lemma heap_bytes_take_le: "heap_bytes (take j ds) \<le> heap_bytes ds"
proof -
  have "heap_bytes ds = heap_bytes (take j ds) + heap_bytes (drop j ds)"
    by (simp add: heap_bytes_append[symmetric])
  then show ?thesis by simp
qed

lemma heap_bytes_ge_length:
  "i < length ds \<Longrightarrow> MIDI_INLINE_MAX < length (ds ! i) \<Longrightarrow> length (ds ! i) \<le> heap_bytes (take (Suc i) ds)"
  by (simp add: take_Suc_conv_app_nth heap_bytes_append) (simp add: heap_bytes_def)

lemma stored_at_frame:
  assumes st: "stored_at mb cs i" and i: "i < n" "i < length cs"
    and frame: "\<And>x. x < event_addr n \<or> lo \<le> x \<Longrightarrow> mem mb' x = mem mb x"
    and bs: "buffer_size mb' = buffer_size mb"
    and lo: "lo + heap_bytes (map value_body cs) + 1 \<le> unat (buffer_size mb)"
  shows "stored_at mb' cs i"
proof -
  have same: "mem mb' x = mem mb x" if "x < event_addr i + 8" for x
  proof -
    have "x < event_addr n"
      using i that by (simp add: event_addr_def sizeof_midi_event_def)
    then show ?thesis using frame by simp
  qed
  have t: "ev_time mb' i = ev_time mb i"
    unfolding ev_time_def by (rule load16_cong; rule same; simp)
  have s: "ev_size mb' i = ev_size mb i"
    unfolding ev_size_def by (rule load16_cong; rule same; simp)
  have b: "ev_byte_offset mb' i = ev_byte_offset mb i"
    unfolding ev_byte_offset_def by (rule load32_cong; rule same; simp)
  have d: "midi_event_data mb' i = midi_event_data mb i"
    by (simp add: midi_event_data_def s b)
  let ?len = "length (value_body (cs ! i))"
  have "read_bytes (mem mb') (midi_event_data mb i) ?len = read_bytes (mem mb) (midi_event_data mb i) ?len"
  proof (rule read_bytes_cong)
    fix k assume k: "k < ?len"
    show "mem mb' (midi_event_data mb i + k) = mem mb (midi_event_data mb i + k)"
    proof (cases "?len \<le> MIDI_INLINE_MAX")
      case True
      then have "midi_event_data mb i = event_addr i + 4"
        using st by (simp add: midi_event_data_def stored_at_def ev_inline_data_def)
      moreover have "event_addr i + 4 + k < event_addr i + 8"
        using True k by (simp add: MIDI_INLINE_MAX_def)
      ultimately show ?thesis using same[of "event_addr i + 4 + k"] by simp
    next
      case False
      then have h: "MIDI_INLINE_MAX < ?len" by simp
      then have md: "midi_event_data mb i = unat (ev_byte_offset mb i)"
        using st by (simp add: midi_event_data_def stored_at_def)
      have "unat (ev_byte_offset mb i) + heap_bytes (map value_body (take (Suc i) cs)) + 1
            = unat (buffer_size mb)"
        using st h by (simp add: stored_at_def)
      moreover have "heap_bytes (map value_body (take (Suc i) cs)) \<le> heap_bytes (map value_body cs)"
        using heap_bytes_take_le[of "Suc i" "map value_body cs"] by (simp add: take_map)
      ultimately have "lo \<le> unat (ev_byte_offset mb i)" using lo by arith
      then show ?thesis using frame[of "midi_event_data mb i + k"] md by simp
    qed
  qed
  then show ?thesis using st by (simp add: stored_at_def t s b d bs)
qed


subsection \<open>A reservation that succeeds\<close>

lemma ucast_of_nat_64_32: "(ucast (of_nat k :: 64 word) :: 32 word) = of_nat k"
  by (rule bit_word_eqI) (auto simp add: bit_simps)

lemma ucast_of_nat_64_16: "(ucast (of_nat k :: 64 word) :: 16 word) = of_nat k"
  by (rule bit_word_eqI) (auto simp add: bit_simps)

lemma ucast_32_64_of_nat: "(ucast (w :: 32 word) :: 64 word) = of_nat (unat w)"
  by simp

lemma unat_of_nat32: "k < 2 ^ 32 \<Longrightarrow> unat (of_nat k :: 32 word) = k"
  by (simp add: unat_of_nat)

lemma unat_of_nat64: "k < 2 ^ 64 \<Longrightarrow> unat (of_nat k :: 64 word) = k"
  by (simp add: unat_of_nat)

lemma unat_of_nat16: "k < 2 ^ 16 \<Longrightarrow> unat (of_nat k :: 16 word) = k"
  by (simp add: unat_of_nat)

lemma unat_minus_one32: "(w :: 32 word) \<noteq> 0 \<Longrightarrow> unat (w - 1) = unat w - 1"
  by (rule unat_minus_one)

lemma unat_ucast_16_64: "unat (ucast (w :: 16 word) :: 64 word) = unat w"
  by (simp add: unsigned_ucast_eq take_bit_nat_eq_self_iff) (rule order_less_trans[OF unsigned_less], simp)

lemma unat_ucast_16_32: "unat (ucast (w :: 16 word) :: 32 word) = unat w"
  by (simp add: unsigned_ucast_eq take_bit_nat_eq_self_iff) (rule order_less_trans[OF unsigned_less], simp)

lemma unat_ucast_32_16: "unat (ucast (w :: 32 word) :: 16 word) = unat w mod 2 ^ 16"
  by (simp add: unsigned_ucast_eq take_bit_eq_mod)

lemma ucast_ucast_16_32:
  assumes "unat (t :: 32 word) < 2 ^ 16"
  shows "(ucast (ucast t :: 16 word) :: 32 word) = t"
proof -
  have "unat (ucast (ucast t :: 16 word) :: 32 word) = unat t"
    using assms by (simp add: unat_ucast_16_32 unat_ucast_32_16)
  then show ?thesis by (simp only: word_unat_eq_iff)
qed


lemma scast_nonneg32_nat:
  "unat (w :: 32 word) < 2 ^ 31 \<Longrightarrow> (scast w :: 64 word) = of_nat (unat w)"
  by (simp add: scast_nonneg32)

lemma reserve_success:
  fixes mb :: midi_buffer and len :: nat
  defines "n \<equiv> unat (event_count mb)"
      and "wp \<equiv> unat (write_pos mb)"
      and "bs \<equiv> unat (buffer_size mb)"
  defines "m2 \<equiv> \<lambda>time. store16 (event_addr n + 2) (of_nat len) (store16 (event_addr n) (ucast time) (mem mb))"
  assumes bs: "bs < 2 ^ 31"
      and t: "time < nframes mb"
      and mono: "n = 0 \<or> ucast (ev_time mb (n - 1)) \<le> time"
      and len: "0 < len" "len < 2 ^ 16"
      and cap: "event_addr (Suc n) + wp + (if MIDI_INLINE_MAX < len then len else 0) \<le> bs"
  shows "jack_midi_event_reserve mb time (of_nat len) =
     (if len \<le> MIDI_INLINE_MAX
      then (Some (event_addr n + 4), mb\<lparr>event_count := of_nat (Suc n), mem := m2 time\<rparr>)
      else (Some (bs - 1 - (wp + len)),
            mb\<lparr>write_pos := of_nat (wp + len), event_count := of_nat (Suc n),
               mem := store32 (event_addr n + 4) (of_nat (bs - 1 - (wp + len))) (m2 time)\<rparr>))"
proof -
  have wpb: "wp < 2 ^ 31" and nb: "n < 2 ^ 28"
    using cap bs by (simp_all add: event_addr_def sizeof_midi_buffer_def sizeof_midi_event_def)
  have sane: "midi_sane mb"
    using bs wpb nb by (simp add: midi_sane_def n_def wp_def bs_def)
  have ec: "event_count mb = of_nat n" and wpw: "write_pos mb = of_nat wp"
    and bsw: "buffer_size mb = of_nat bs"
    by (simp_all add: n_def wp_def bs_def)
  have ec1: "event_count mb + 1 = of_nat (Suc n)" by (simp add: ec)
  have c1: "\<not> nframes mb \<le> time" using t by simp
  have c2: "\<not> (0 < event_count mb \<and> time < ucast (ev_time mb (unat (event_count mb - 1))))"
  proof (cases "n = 0")
    case True
    then have "event_count mb = 0" by (simp add: ec)
    then show ?thesis by simp
  next
    case False
    then have "event_count mb \<noteq> 0" by (simp add: n_def unat_eq_0)
    then have "unat (event_count mb - 1) = n - 1" by (simp add: unat_minus_one n_def)
    with mono False show ?thesis by (simp add: not_less)
  qed
  have ul: "unat (of_nat len :: 64 word) = len" using len by (simp add: unat_of_nat)
  have c3: "(of_nat len :: 64 word) \<noteq> 0" using ul len by (metis less_numeral_extra(3) unat_0)
  have rem: "spec_remaining_capacity mb = int bs - int (event_addr (Suc n) + wp)"
    by (simp add: spec_remaining_capacity_def header_heap_usage_def event_addr_def n_def wp_def bs_def)
  have mx: "unat (jack_midi_max_event_size mb) = max 4 (bs - (event_addr (Suc n) + wp))"
    using max_event_size_nat[OF sane] cap by (simp add: rem split: if_splits)
  have "len \<le> max 4 (bs - (event_addr (Suc n) + wp))"
    using cap by (simp add: MIDI_INLINE_MAX_def split: if_splits)
  then have "\<not> unat (jack_midi_max_event_size mb) < len"
    unfolding mx by arith
  then have c4: "\<not> jack_midi_max_event_size mb < of_nat len"
    by (simp add: word_less_nat_alt ul)
  have c5: "((of_nat len :: 64 word) \<le> of_nat MIDI_INLINE_MAX) = (len \<le> MIDI_INLINE_MAX)"
    by (simp add: word_le_nat_alt ul MIDI_INLINE_MAX_def)
  have "(scast (write_pos mb) :: 64 word) + of_nat len = of_nat (wp + len)"
    using wpb by (simp add: scast_nonneg32_nat wp_def)
  then have heap: "(ucast ((scast (write_pos mb) :: 64 word) + of_nat len) :: 32 word) = of_nat (wp + len)"
    by (simp only: ucast_of_nat_64_32)
  have wl: "wp + len < 2 ^ 31" and wlb: "wp + len + 1 \<le> bs" if "MIDI_INLINE_MAX < len"
    using cap bs that by (simp_all add: event_addr_def sizeof_midi_buffer_def sizeof_midi_event_def)
  define k where "k = wp + len"
  have bo: "(ucast ((scast (buffer_size mb) :: 64 word) - 1 - scast (of_nat k :: 32 word)) :: 32 word)
      = of_nat (bs - 1 - k)" if h: "MIDI_INLINE_MAX < len"
  proof -
    have kb: "k < 2 ^ 31" and kbs: "k + 1 \<le> bs" using wl[OF h] wlb[OF h] by (simp_all add: k_def)
    have u: "unat (of_nat k :: 32 word) = k"
      using kb by (simp add: unat_of_nat)
    have s1: "(scast (of_nat k :: 32 word) :: 64 word) = of_nat k"
      using kb by (simp add: scast_nonneg32_nat u)
    have s2: "(scast (buffer_size mb) :: 64 word) = of_nat bs"
      using bs by (simp add: scast_nonneg32_nat bs_def)
    have "(of_nat bs :: 64 word) - 1 - of_nat k = of_nat (bs - 1 - k)"
      using kbs by (simp add: of_nat_diff)
    then show ?thesis by (simp only: s1 s2 ucast_of_nat_64_32)
  qed
  have ubo: "unat (of_nat (bs - Suc k) :: 32 word) = bs - Suc k"
    using bs by (simp add: unat_of_nat)
  have r: "jack_midi_event_reserve mb time (of_nat len) =
      (let ev = event_addr (unat (event_count mb));
            m1 = store16 ev (ucast time) (mem mb);
            m2 = store16 (ev + 2) (ucast (of_nat len :: 64 word)) m1
        in if (of_nat len :: 64 word) \<le> of_nat MIDI_INLINE_MAX
           then (Some (ev + 4), mb\<lparr>event_count := event_count mb + 1, mem := m2\<rparr>)
           else
             let wp = (ucast ((scast (write_pos mb) :: 64 word) + of_nat len) :: 32 word);
                 byte_offset = (ucast ((scast (buffer_size mb) :: 64 word) - 1 - scast wp) :: 32 word);
                 m3 = store32 (ev + 4) byte_offset m2
             in (Some (unat byte_offset),
                 mb\<lparr>write_pos := wp, event_count := event_count mb + 1, mem := m3\<rparr>))"
    by (simp only: jack_midi_event_reserve_def c1 c2 c3 c4 if_False)
  show ?thesis
  proof (cases "len \<le> MIDI_INLINE_MAX")
    case True
    then show ?thesis
      by (simp add: r c5 Let_def ec1 m2_def n_def[symmetric] ucast_of_nat_64_16
          del: of_nat_Suc of_nat_add)
  next
    case False
    then have h: "MIDI_INLINE_MAX < len" by simp
    show ?thesis
      using False
      by (simp add: r c5 Let_def heap k_def[symmetric] bo[OF h] ubo ec1 m2_def
        n_def[symmetric] ucast_of_nat_64_16 del: of_nat_Suc of_nat_add)
  qed
qed


lemma inline_event_memory:
  fixes d :: "8 word list"
  defines "m' \<equiv> \<lambda>ev t sz m. memcpy (ev + 4) d (store16 (ev + 2) sz (store16 ev t m))"
  assumes len: "length d \<le> 4"
  shows "load16 (m' ev t sz m) ev = t"
    and "load16 (m' ev t sz m) (ev + 2) = sz"
    and "read_bytes (m' ev t sz m) (ev + 4) (length d) = d"
    and "x < ev \<or> ev + 8 \<le> x \<Longrightarrow> m' ev t sz m x = m x"
proof -
  have "load16 (m' ev t sz m) ev = load16 (store16 ev t m) ev"
    by (rule load16_cong) (simp_all add: m'_def memcpy_def store16_def)
  then show "load16 (m' ev t sz m) ev = t" by simp
  have "load16 (m' ev t sz m) (ev + 2) = load16 (store16 (ev + 2) sz (store16 ev t m)) (ev + 2)"
    by (rule load16_cong) (simp_all add: m'_def memcpy_def)
  then show "load16 (m' ev t sz m) (ev + 2) = sz" by simp
  show "read_bytes (m' ev t sz m) (ev + 4) (length d) = d"
    unfolding m'_def by (rule read_bytes_memcpy)
  show "m' ev t sz m x = m x" if "x < ev \<or> ev + 8 \<le> x"
    using that len by (auto simp add: m'_def memcpy_def store16_def)
qed

lemma heap_event_memory:
  fixes d :: "8 word list"
  defines "m' \<equiv> \<lambda>ev t sz bo p m.
     memcpy p d (store32 (ev + 4) bo (store16 (ev + 2) sz (store16 ev t m)))"
  assumes p: "ev + 8 \<le> p"
  shows "load16 (m' ev t sz bo p m) ev = t"
    and "load16 (m' ev t sz bo p m) (ev + 2) = sz"
    and "load32 (m' ev t sz bo p m) (ev + 4) = bo"
    and "read_bytes (m' ev t sz bo p m) p (length d) = d"
    and "x < ev \<or> (ev + 8 \<le> x \<and> x < p) \<or> p + length d \<le> x \<Longrightarrow> m' ev t sz bo p m x = m x"
proof -
  have "load16 (m' ev t sz bo p m) ev = load16 (store16 ev t m) ev"
    using p by (intro load16_cong) (simp_all add: m'_def memcpy_def store16_def store32_def)
  then show "load16 (m' ev t sz bo p m) ev = t" by simp
  have "load16 (m' ev t sz bo p m) (ev + 2) = load16 (store16 (ev + 2) sz (store16 ev t m)) (ev + 2)"
    using p by (intro load16_cong) (simp_all add: m'_def memcpy_def store32_def)
  then show "load16 (m' ev t sz bo p m) (ev + 2) = sz" by simp
  have "load32 (m' ev t sz bo p m) (ev + 4)
      = load32 (store32 (ev + 4) bo (store16 (ev + 2) sz (store16 ev t m))) (ev + 4)"
    using p by (intro load32_cong) (simp_all add: m'_def memcpy_def)
  then show "load32 (m' ev t sz bo p m) (ev + 4) = bo" by simp
  show "read_bytes (m' ev t sz bo p m) p (length d) = d"
    unfolding m'_def by (rule read_bytes_memcpy)
  show "m' ev t sz bo p m x = m x" if "x < ev \<or> (ev + 8 \<le> x \<and> x < p) \<or> p + length d \<le> x"
    using that p by (auto simp add: m'_def memcpy_def store16_def store32_def)
qed


subsection \<open>Writing one more event\<close>

lemma unat_of_nat_Suc32: "n < 2 ^ 28 \<Longrightarrow> unat (of_nat (Suc n) :: 32 word) = Suc n"
  by (rule unat_of_nat32) simp

lemma write_step:
  assumes w: "written mb cs"
      and ok: "writable (unat (buffer_size mb)) (nframes mb) (cs @ [c])"
  shows "fst (jack_midi_event_write mb (offset c) (value_body c)) = 0
     \<and> written (snd (jack_midi_event_write mb (offset c) (value_body c))) (cs @ [c])
     \<and> buffer_size (snd (jack_midi_event_write mb (offset c) (value_body c))) = buffer_size mb
     \<and> nframes (snd (jack_midi_event_write mb (offset c) (value_body c))) = nframes mb
     \<and> lost_events (snd (jack_midi_event_write mb (offset c) (value_body c))) = lost_events mb"
proof -
  define n where "n = length cs"
  define d where "d = value_body c"
  define len where "len = length d"
  define bs where "bs = unat (buffer_size mb)"
  define wp where "wp = heap_bytes (map value_body cs)"
  define ev where "ev = event_addr n"
  define extra where "extra = (if MIDI_INLINE_MAX < len then len else 0)"
  have ecn: "unat (event_count mb) = n" and wpn: "unat (write_pos mb) = wp"
    and st: "\<And>i. i < n \<Longrightarrow> stored_at mb cs i"
    using w by (simp_all add: written_def n_def wp_def)
  have cok: "unat (offset c) < 2 ^ 16" "offset c < nframes mb" "0 < len" "len < 2 ^ 16"
    using ok by (simp_all add: writable_def len_def d_def)
  have oldok: "unat (offset x) < 2 ^ 16" if "x \<in> set cs" for x
    using ok that by (simp add: writable_def)
  have srt: "sorted (map offset (cs @ [c]))" using ok by (simp add: writable_def)
  have bsb: "bs < 2 ^ 31" using ok by (simp add: writable_def bs_def)
  have hb: "heap_bytes (map value_body cs @ [value_body c]) = wp + extra"
    by (simp add: heap_bytes_append wp_def extra_def len_def d_def) (simp add: heap_bytes_def)
  have cap: "event_addr (Suc n) + wp + extra < bs"
    using ok by (simp add: writable_def hb n_def bs_def)
  have nb: "n < 2 ^ 28"
    using cap bsb by (simp add: event_addr_def sizeof_midi_buffer_def sizeof_midi_event_def)
  have ev8: "event_addr (Suc n) = ev + 8"
    by (simp add: event_addr_def ev_def sizeof_midi_event_def)
  have mono: "n = 0 \<or> ucast (ev_time mb (n - 1)) \<le> offset c"
  proof (cases "n = 0")
    case False
    then have l: "n - 1 < n" by simp
    have "ev_time mb (n - 1) = ucast (offset (cs ! (n - 1)))"
      using st[OF l] by (simp add: stored_at_def)
    moreover have "cs ! (n - 1) \<in> set cs" using l by (simp add: n_def)
    then have "unat (offset (cs ! (n - 1))) < 2 ^ 16"
      by (rule oldok)
    then have "(ucast (ucast (offset (cs ! (n - 1))) :: 16 word) :: 32 word) = offset (cs ! (n - 1))"
      by (rule ucast_ucast_16_32)
    moreover have "offset (cs ! (n - 1)) \<le> offset c"
      using srt l by (simp add: sorted_append n_def)
    ultimately show ?thesis by simp
  qed simp
  have cap': "event_addr (Suc (unat (event_count mb))) + unat (write_pos mb)
        + (if MIDI_INLINE_MAX < len then len else 0) \<le> unat (buffer_size mb)"
    using cap by (simp add: ecn wpn extra_def bs_def)
  have mono': "unat (event_count mb) = 0 \<or> ucast (ev_time mb (unat (event_count mb) - 1)) \<le> offset c"
    using mono by (simp add: ecn)
  have bsb': "unat (buffer_size mb) < 2 ^ 31" using bsb by (simp add: bs_def)
  note res = reserve_success[OF bsb' cok(2) mono' cok(3,4) cap', unfolded ecn wpn, folded bs_def ev_def]
  let ?m2 = "store16 (ev + 2) (of_nat len) (store16 ev (ucast (offset c)) (mem mb))"
  have un: "unat (of_nat (Suc n) :: 32 word) = Suc n" by (rule unat_of_nat_Suc32[OF nb])
  have usz: "unat (of_nat len :: 16 word) = len" using cok(4) by (simp add: unat_of_nat)
  have lo: "ev + 8 + wp + extra + 1 \<le> bs" using cap by (simp add: ev8)
  have nth_n: "(cs @ [c]) ! n = c" and take_n: "take (Suc n) (cs @ [c]) = cs @ [c]"
    by (simp_all add: n_def)
  show ?thesis
  proof (cases "len \<le> MIDI_INLINE_MAX")
    case True
    then have ex0: "extra = 0" by (simp add: extra_def)
    have l4: "length d \<le> 4" using True by (simp add: len_def MIDI_INLINE_MAX_def)
    define mb' where
      "mb' = mb\<lparr>event_count := of_nat (Suc n), mem := memcpy (ev + 4) d ?m2\<rparr>"
    have wr: "jack_midi_event_write mb (offset c) (value_body c) = (0, mb')"
      using True by (simp add: jack_midi_event_write_def d_def[symmetric] len_def[symmetric] res mb'_def
          del: of_nat_Suc)
    note im = inline_event_memory[OF l4, where ev = ev and t = "ucast (offset c)"
        and sz = "of_nat len" and m = "mem mb", folded len_def]
    have memb: "mem mb' = memcpy (ev + 4) d ?m2" by (simp add: mb'_def)
    have frame: "mem mb' x = mem mb x" if "x < event_addr n \<or> bs - 1 - wp \<le> x" for x
    proof -
      have "x < ev \<or> ev + 8 \<le> x" using that lo by (auto simp add: ev_def)
      then show ?thesis unfolding memb by (rule im(4))
    qed
    have old: "stored_at mb' (cs @ [c]) i" if i: "i < n" for i
    proof -
      have "stored_at mb' cs i"
      proof (rule stored_at_frame[OF st[OF i] i _ frame])
        show "i < length cs" using i by (simp add: n_def)
        show "buffer_size mb' = buffer_size mb" by (simp add: mb'_def)
        show "bs - 1 - wp + heap_bytes (map value_body cs) + 1 \<le> unat (buffer_size mb)"
          using lo by (simp add: wp_def[symmetric] bs_def[symmetric])
      qed
      then show ?thesis using i by (simp add: stored_at_def nth_append n_def)
    qed
    have new: "stored_at mb' (cs @ [c]) n"
      using True im(1,2,3)
      by (simp add: stored_at_def nth_n ev_time_def ev_size_def midi_event_data_def
          ev_inline_data_def memb ev_def[symmetric] d_def[symmetric] len_def[symmetric] usz)
    have "written mb' (cs @ [c])"
      unfolding written_def
    proof (intro conjI allI impI)
      show "unat (event_count mb') = length (cs @ [c])"
        by (simp add: mb'_def un[unfolded n_def] n_def del: of_nat_Suc)
      show "unat (write_pos mb') = heap_bytes (map value_body (cs @ [c]))"
        by (simp add: mb'_def wpn hb ex0)
      fix i assume "i < length (cs @ [c])"
      then have "i < n \<or> i = n" by (auto simp add: n_def)
      then show "stored_at mb' (cs @ [c]) i" using old new by blast
    qed
    then show ?thesis by (simp add: wr) (simp add: mb'_def)
  next
    case False
    then have h: "MIDI_INLINE_MAX < len" and ex: "extra = len" by (simp_all add: extra_def)
    define p where "p = bs - 1 - (wp + len)"
    have pb: "ev + 8 \<le> p" and pe: "p + len = bs - 1 - wp" and pbs: "p + (wp + len) + 1 = bs"
      using lo ex by (simp_all add: p_def)
    define mb' where
      "mb' = mb\<lparr>write_pos := of_nat (wp + len), event_count := of_nat (Suc n),
          mem := memcpy p d (store32 (ev + 4) (of_nat p) ?m2)\<rparr>"
    have wr: "jack_midi_event_write mb (offset c) (value_body c) = (0, mb')"
      using False by (simp add: jack_midi_event_write_def d_def[symmetric] len_def[symmetric] res mb'_def
          p_def del: of_nat_Suc of_nat_add)
    note hm = heap_event_memory[OF pb, where d = d and t = "ucast (offset c)"
        and sz = "of_nat len" and bo = "of_nat p" and m = "mem mb", folded len_def]
    have memb: "mem mb' = memcpy p d (store32 (ev + 4) (of_nat p) ?m2)" by (simp add: mb'_def)
    have frame: "mem mb' x = mem mb x" if "x < event_addr n \<or> bs - 1 - wp \<le> x" for x
    proof -
      have "x < ev \<or> (ev + 8 \<le> x \<and> x < p) \<or> p + len \<le> x" using that pe by (auto simp add: ev_def)
      then show ?thesis unfolding memb by (rule hm(5))
    qed
    have old: "stored_at mb' (cs @ [c]) i" if i: "i < n" for i
    proof -
      have "stored_at mb' cs i"
      proof (rule stored_at_frame[OF st[OF i] i _ frame])
        show "i < length cs" using i by (simp add: n_def)
        show "buffer_size mb' = buffer_size mb" by (simp add: mb'_def)
        show "bs - 1 - wp + heap_bytes (map value_body cs) + 1 \<le> unat (buffer_size mb)"
          using lo by (simp add: wp_def[symmetric] bs_def[symmetric])
      qed
      then show ?thesis using i by (simp add: stored_at_def nth_append n_def)
    qed
    have bsm: "unat (buffer_size mb') = bs" by (simp add: mb'_def bs_def)
    have up: "unat (of_nat p :: 32 word) = p"
      using bsb pbs by (intro unat_of_nat32) simp
    have new: "stored_at mb' (cs @ [c]) n"
      using h hm(1,2,3,4) pbs
      by (simp add: stored_at_def nth_n take_n ev_time_def ev_size_def ev_byte_offset_def
          midi_event_data_def memb ev_def[symmetric] d_def[symmetric] len_def[symmetric] usz up
          hb[folded d_def] ex bs_def[symmetric] bsm del: take_append)
    have uw: "unat (of_nat (wp + len) :: 32 word) = wp + len"
      using bsb pbs by (intro unat_of_nat32) simp
    have "written mb' (cs @ [c])"
      unfolding written_def
    proof (intro conjI allI impI)
      show "unat (event_count mb') = length (cs @ [c])"
        by (simp add: mb'_def un[unfolded n_def] n_def del: of_nat_Suc)
      show "unat (write_pos mb') = heap_bytes (map value_body (cs @ [c]))"
        by (simp add: mb'_def uw hb ex del: of_nat_add)
      fix i assume "i < length (cs @ [c])"
      then have "i < n \<or> i = n" by (auto simp add: n_def)
      then show "stored_at mb' (cs @ [c]) i" using old new by blast
    qed
    then show ?thesis by (simp add: wr) (simp add: mb'_def)
  qed
qed


lemma writable_prefix:
  assumes "writable bs nf (cs @ [c])"
  shows "writable bs nf cs"
proof -
  have "event_addr (length cs) \<le> event_addr (length (cs @ [c]))"
    by (simp add: event_addr_def)
  moreover have "heap_bytes (map value_body cs) \<le> heap_bytes (map value_body (cs @ [c]))"
    by (simp add: heap_bytes_append)
  ultimately have "event_addr (length cs) + heap_bytes (map value_body cs)
      \<le> event_addr (length (cs @ [c])) + heap_bytes (map value_body (cs @ [c]))"
    by (rule add_mono)
  then show ?thesis
    using assms unfolding writable_def by (simp add: sorted_append)
qed

lemma deliver_all:
  assumes "written mb []"
      and "writable (unat (buffer_size mb)) (nframes mb) cs"
      and "\<forall>c\<in>set cs. ctype c = SPA_CONTROL_Midi"
  shows "written (foldl midi_deliver mb cs) cs
     \<and> buffer_size (foldl midi_deliver mb cs) = buffer_size mb
     \<and> nframes (foldl midi_deliver mb cs) = nframes mb
     \<and> lost_events (foldl midi_deliver mb cs) = lost_events mb"
  using assms(2,3)
proof (induction cs rule: rev_induct)
  case Nil
  then show ?case using assms(1) by simp
next
  case (snoc c cs)
  let ?m = "foldl midi_deliver mb cs"
  have ih: "written ?m cs" "buffer_size ?m = buffer_size mb" "nframes ?m = nframes mb"
    "lost_events ?m = lost_events mb"
    using snoc.IH[OF writable_prefix[OF snoc.prems(1)]] snoc.prems(2) by simp_all
  have ok: "writable (unat (buffer_size ?m)) (nframes ?m) (cs @ [c])"
    using snoc.prems(1) by (simp add: ih)
  have "ctype c = SPA_CONTROL_Midi" using snoc.prems(2) by simp
  then have d: "foldl midi_deliver mb (cs @ [c])
      = snd (jack_midi_event_write ?m (offset c) (value_body c))"
    by (simp add: midi_deliver_def)
  show ?case unfolding d using write_step[OF ih(1) ok] ih by simp
qed

lemma written_events:
  assumes w: "written mb cs"
      and b: "\<forall>c\<in>set cs. unat (offset c) < 2 ^ 16"
  shows "midi_events mb = map (\<lambda>c. (offset c, of_nat (length (value_body c)), value_body c)) cs"
proof (rule nth_equalityI)
  have n: "unat (event_count mb) = length cs" using w by (simp add: written_def)
  show "length (midi_events mb)
      = length (map (\<lambda>c. (offset c, of_nat (length (value_body c)), value_body c)) cs)"
    by (simp add: midi_events_def jack_midi_get_event_count_def n)
  fix i assume "i < length (midi_events mb)"
  then have i: "i < length cs" by (simp add: midi_events_def jack_midi_get_event_count_def n)
  then have "i < unat (event_count mb)" by (simp add: n)
  then have "i < 2 ^ 32" using unat32_bound[of "event_count mb"] by simp
  then have ui: "unat (of_nat i :: 32 word) = i" by (rule unat_of_nat32)
  have st: "stored_at mb cs i" using w i by (simp add: written_def)
  have "unat (offset (cs ! i)) < 2 ^ 16" using b i by simp
  then have t: "(ucast (ucast (offset (cs ! i)) :: 16 word) :: 32 word) = offset (cs ! i)"
    by (rule ucast_ucast_16_32)
  have ul: "unat (ev_size mb i) = length (value_body (cs ! i))"
    using st by (simp add: stored_at_def)
  have "(ucast (ev_size mb i) :: 64 word) = of_nat (unat (ev_size mb i))" by simp
  then have sz: "(ucast (ev_size mb i) :: 64 word) = of_nat (length (value_body (cs ! i)))"
    by (simp only: ul)
  have usz: "unat (ucast (ev_size mb i) :: 64 word) = length (value_body (cs ! i))"
    using st by (simp add: stored_at_def unat_ucast_16_64)
  have usz2: "unat (of_nat (length (value_body (cs ! i))) :: 64 word) = length (value_body (cs ! i))"
    using usz by (simp only: sz)
  have "midi_event_at mb i
      = (offset (cs ! i), of_nat (length (value_body (cs ! i))), value_body (cs ! i))"
    using st by (simp add: midi_event_at_def jack_midi_event_get_def ui Let_def t sz usz2 stored_at_def)
  then show "midi_events mb ! i
      = map (\<lambda>c. (offset c, of_nat (length (value_body c)), value_body c)) cs ! i"
    using i by (simp add: midi_events_def jack_midi_get_event_count_def n)
qed


subsection \<open>Round trip\<close>

lemma convert_to_midi_single: "convert_to_midi [cs] m = foldl midi_deliver m cs"
proof (induction cs arbitrary: m)
  case Nil
  show ?case by (subst convert_to_midi.simps) simp
next
  case (Cons c cs)
  have "convert_to_midi [c # cs] m = convert_to_midi [cs] (midi_deliver m c)"
    by (subst convert_to_midi.simps) simp
  then show ?case by (simp add: Cons.IH)
qed

lemma length_read_bytes [simp]: "length (read_bytes m p n) = n"
  by (simp add: read_bytes_def)

lemma midi_controls_events:
  "midi_events src
     = map (\<lambda>c. (offset c, of_nat (length (value_body c)), value_body c)) (midi_controls src)"
  by (simp add: midi_events_def midi_controls_def midi_event_at_def jack_midi_event_get_def Let_def)

lemma midi_controls_bounds:
  assumes "c \<in> set (midi_controls src)"
  shows "ctype c = SPA_CONTROL_Midi" and "unat (offset c) < 2 ^ 16" and "length (value_body c) < 2 ^ 16"
proof -
  from assms obtain i where
    c: "c = \<lparr>offset = ucast (ev_time src (unat (of_nat i :: 32 word))), ctype = SPA_CONTROL_Midi,
          value_body = read_bytes (mem src) (midi_event_data src (unat (of_nat i :: 32 word)))
            (unat (ucast (ev_size src (unat (of_nat i :: 32 word))) :: 64 word))\<rparr>"
    by (auto simp add: midi_controls_def jack_midi_event_get_def Let_def)
  show "ctype c = SPA_CONTROL_Midi" by (simp add: c)
  have b16: "unat (w :: 16 word) < 2 ^ 16" for w using unsigned_less[of w] by simp
  show "unat (offset c) < 2 ^ 16" using b16 by (simp add: c unat_ucast_16_32)
  show "length (value_body c) < 2 ^ 16" using b16 by (simp add: c unat_ucast_16_64)
qed

text \<open>
  C4, as amended. Take a source port buffer whose \<open>buffer_size\<close> is not negative and
  whose events are ordered by time, lie in the period and are not empty, such that the
  headers and heap payloads of these events leave at least one byte of a buffer of that
  size free, and such that the encoded sequence fits the wire buffer. Encoding it with
  \<open>convert_from_midi\<close> and decoding the sequence with \<open>convert_to_midi\<close> into a cleared port
  buffer of the same period and size rejects no event and yields the same list of events:
  the same times, sizes and payload bytes in the same order.
\<close>

theorem midi_roundtrip_identity:
  assumes fits: "roundtrip_fits src wire_size"
      and bs: "buffer_size dst = buffer_size src"
      and nf: "nframes dst = nframes src"
  shows "\<exists>r. midi_roundtrip src wire_size dst = Some r
           \<and> midi_events r = midi_events src
           \<and> lost_events r = 0"
proof -
  define cs where "cs = midi_controls src"
  define d0 where "d0 = jack_midi_clear_buffer dst"
  define r where "r = foldl midi_deliver d0 cs"
  have f: "unat (buffer_size src) < 2 ^ 31" "sorted (map offset cs)"
    "\<And>c. c \<in> set cs \<Longrightarrow> offset c < nframes src \<and> value_body c \<noteq> []"
    "event_addr (length cs) + heap_bytes (map value_body cs) < unat (buffer_size src)"
    "sequence_pod_size cs \<le> wire_size"
    using fits by (simp_all add: roundtrip_fits_def cs_def)
  have "16 \<le> sequence_pod_size cs" by (simp add: sequence_pod_size_def)
  then have "\<not> wire_size < 16" using f(5) by simp
  then have enc: "convert_from_midi src wire_size = Some cs"
    using f(5) by (simp add: convert_from_midi_def cs_def)
  have rt: "midi_roundtrip src wire_size dst = Some r"
    by (simp add: midi_roundtrip_def enc convert_to_midi_single r_def d0_def)
  have d0: "buffer_size d0 = buffer_size src" "nframes d0 = nframes src" "lost_events d0 = 0"
    "written d0 []"
    by (simp_all add: d0_def jack_midi_clear_buffer_def bs nf written_def heap_bytes_def)
  have cb: "ctype c = SPA_CONTROL_Midi" "unat (offset c) < 2 ^ 16" "length (value_body c) < 2 ^ 16"
    if "c \<in> set cs" for c
    using midi_controls_bounds[of c src] that by (simp_all add: cs_def)
  have wr: "writable (unat (buffer_size d0)) (nframes d0) cs"
    unfolding writable_def d0(1,2)
    using f(1,2,4) f(3) cb(2,3) by auto
  have "\<forall>c\<in>set cs. ctype c = SPA_CONTROL_Midi" using cb(1) by simp
  from deliver_all[OF d0(4) wr this]
  have w: "written r cs" and l: "lost_events r = 0" by (simp_all add: r_def d0(3))
  have "midi_events r = map (\<lambda>c. (offset c, of_nat (length (value_body c)), value_body c)) cs"
    using w cb(2) by (intro written_events) simp_all
  then have "midi_events r = midi_events src"
    by (simp add: midi_controls_events cs_def)
  then show ?thesis using rt l by simp
qed


text \<open>The example of the specification: events at times 0 and 5 with 3 and 2 bytes, a wire
  buffer of \<open>MAX_BUFFER_FRAMES * sizeof(float)\<close> = 32768 bytes as \<open>process_tee\<close> passes it, and
  a port buffer fresh from \<open>init_buffer\<close> as destination.\<close>

lemma example_events:
  "midi_events example_events_buffer = [(0, 3, [0x90, 0x3c, 0x40]), (5, 2, [0xc0, 0x05])]"
  "midi_controls example_events_buffer =
     [\<lparr>offset = 0, ctype = SPA_CONTROL_Midi, value_body = [0x90, 0x3c, 0x40]\<rparr>,
      \<lparr>offset = 5, ctype = SPA_CONTROL_Midi, value_body = [0xc0, 0x05]\<rparr>]"
  "buffer_size example_events_buffer = 32768"
  "nframes example_events_buffer = 8192"
  "buffer_size empty_port_buffer = 32768"
  "nframes empty_port_buffer = 8192"
  by (simp_all add: example_events_buffer_def midi_controls_def midi_eval midi_consts midi_read_eval)

lemma example_fits: "roundtrip_fits example_events_buffer 32768"
  by (simp add: roundtrip_fits_def example_events sequence_pod_size_def control_pod_size_def
      heap_bytes_def midi_consts word_le_nat_alt word_less_nat_alt)

theorem midi_roundtrip_identity_witness:
  "roundtrip_fits example_events_buffer 32768
   \<and> buffer_size empty_port_buffer = buffer_size example_events_buffer
   \<and> nframes empty_port_buffer = nframes example_events_buffer
   \<and> midi_events example_events_buffer = [(0, 3, [0x90, 0x3c, 0x40]), (5, 2, [0xc0, 0x05])]
   \<and> (case midi_roundtrip example_events_buffer 32768 empty_port_buffer of
         None \<Rightarrow> []
       | Some r \<Rightarrow> midi_events r) = [(0, 3, [0x90, 0x3c, 0x40]), (5, 2, [0xc0, 0x05])]"
proof -
  have b: "buffer_size empty_port_buffer = buffer_size example_events_buffer"
    and n: "nframes empty_port_buffer = nframes example_events_buffer"
    by (simp_all add: example_events)
  from midi_roundtrip_identity[OF example_fits b n]
  obtain r where "midi_roundtrip example_events_buffer 32768 empty_port_buffer = Some r"
    and "midi_events r = midi_events example_events_buffer"
    by blast
  then show ?thesis using example_fits b n by (simp add: example_events(1))
qed

text \<open>
  C4 as stated fails for a port buffer that holds more events than the wire buffer can
  take. 1365 one-byte events at time 0 need 10944 bytes of the port buffer, but 32776
  bytes as a wire sequence: the sequence does not fit the 32768 bytes of the wire buffer,
  and decoding what was built yields no event.
\<close>

lemma midi_events_controls:
  "midi_controls src
     = map (\<lambda>(t, len, d). \<lparr>offset = t, ctype = SPA_CONTROL_Midi, value_body = d\<rparr>) (midi_events src)"
  by (simp add: midi_events_def midi_controls_def midi_event_at_def jack_midi_event_get_def Let_def)

lemma many_events:
  "midi_events many_events_buffer = replicate 1365 (0, 1, [0xf8])"
  "buffer_size many_events_buffer = buffer_size empty_port_buffer"
  "nframes many_events_buffer = nframes empty_port_buffer"
proof -
  let ?d0 = "jack_midi_clear_buffer empty_port_buffer"
  let ?cs = "replicate 1365 note_control"
  have d0: "written ?d0 []" "buffer_size ?d0 = 32768" "nframes ?d0 = 8192"
    "buffer_size empty_port_buffer = 32768" "nframes empty_port_buffer = 8192"
    by (simp_all add: written_def heap_bytes_def midi_eval midi_consts)
  have hb: "heap_bytes (map value_body ?cs) = 0"
    by (simp add: heap_bytes_def note_control_def MIDI_INLINE_MAX_def)
  have wr: "writable (unat (buffer_size ?d0)) (nframes ?d0) ?cs"
    unfolding writable_def d0 hb
    by (simp add: note_control_def midi_consts word_less_nat_alt)
  have "\<forall>c\<in>set ?cs. ctype c = SPA_CONTROL_Midi" by (simp add: note_control_def)
  from deliver_all[OF d0(1) wr this]
  have w: "written many_events_buffer ?cs"
    and b: "buffer_size many_events_buffer = buffer_size ?d0"
    and n: "nframes many_events_buffer = nframes ?d0"
    by (simp_all add: many_events_buffer_def)
  have "midi_events many_events_buffer
      = map (\<lambda>c. (offset c, of_nat (length (value_body c)), value_body c)) ?cs"
    using w by (rule written_events) (simp add: note_control_def)
  then show "midi_events many_events_buffer = replicate 1365 (0, 1, [0xf8])"
    by (simp add: note_control_def)
  show "buffer_size many_events_buffer = buffer_size empty_port_buffer" by (simp add: b d0)
  show "nframes many_events_buffer = nframes empty_port_buffer" by (simp add: n d0)
qed

theorem midi_roundtrip_wire_overflow_counterexample:
  "length (midi_events many_events_buffer) = 1365
   \<and> sorted (map fst (midi_events many_events_buffer))
   \<and> list_all (\<lambda>e. fst e < nframes many_events_buffer) (midi_events many_events_buffer)
   \<and> buffer_size empty_port_buffer = buffer_size many_events_buffer
   \<and> nframes empty_port_buffer = nframes many_events_buffer
   \<and> (case midi_roundtrip many_events_buffer 32768 empty_port_buffer of
         None \<Rightarrow> []
       | Some r \<Rightarrow> midi_events r) = []"
proof -
  have nf: "nframes empty_port_buffer = 8192" by (simp add: midi_eval midi_consts)
  have cs: "midi_controls many_events_buffer = replicate 1365 note_control"
    by (simp add: midi_events_controls many_events(1) note_control_def)
  have "sequence_pod_size (midi_controls many_events_buffer) = 32776"
    by (simp add: cs sequence_pod_size_def control_pod_size_def note_control_def sum_list_replicate)
  then have "convert_from_midi many_events_buffer 32768 = Some []"
    by (simp add: convert_from_midi_def)
  then have "midi_roundtrip many_events_buffer 32768 empty_port_buffer
      = Some (jack_midi_clear_buffer empty_port_buffer)"
    by (simp add: midi_roundtrip_def convert_to_midi_single)
  moreover have "midi_events (jack_midi_clear_buffer empty_port_buffer) = []"
    by (simp add: midi_events_def jack_midi_get_event_count_def jack_midi_clear_buffer_def)
  ultimately show ?thesis
    by (simp add: many_events nf list_all_length word_less_nat_alt)
qed

section \<open>Properties of the buffer queue\<close>

lemma flag_out_set: "SPA_FLAG_IS_SET (SPA_FLAG_SET f BUFFER_FLAG_OUT) BUFFER_FLAG_OUT"
  by (simp add: SPA_FLAG_IS_SET_def SPA_FLAG_SET_def BUFFER_FLAG_OUT_def word_bw_assocs)

lemma flag_out_clear: "\<not> SPA_FLAG_IS_SET (SPA_FLAG_CLEAR f BUFFER_FLAG_OUT) BUFFER_FLAG_OUT"
  by (simp add: SPA_FLAG_IS_SET_def SPA_FLAG_CLEAR_def BUFFER_FLAG_OUT_def word_bw_assocs)

lemma flag_out_set_clear:
  "\<not> SPA_FLAG_IS_SET f BUFFER_FLAG_OUT
    \<Longrightarrow> SPA_FLAG_CLEAR (SPA_FLAG_SET f BUFFER_FLAG_OUT) BUFFER_FLAG_OUT = f"
proof -
  assume "\<not> SPA_FLAG_IS_SET f BUFFER_FLAG_OUT"
  then have e: "\<not> bit f 0"
    by (auto simp add: SPA_FLAG_IS_SET_def BUFFER_FLAG_OUT_def and_one_eq bit_0 mod_2_eq_odd)
  have "(f OR 1) AND NOT 1 = f"
  proof (rule bit_word_eqI)
    fix n assume "n < LENGTH(32)"
    then have "bit ((f OR 1) AND NOT 1) n = ((bit f n \<or> n = 0) \<and> n \<noteq> 0)"
      by (simp only: bit_and_iff bit_or_iff bit_not_iff bit_1_iff possible_bit_word) simp
    then show "bit ((f OR 1) AND NOT 1) n = bit f n"
      using e by (cases "n = 0") simp_all
  qed
  then show ?thesis
    by (simp add: SPA_FLAG_CLEAR_def SPA_FLAG_SET_def BUFFER_FLAG_OUT_def)
qed


text \<open>
  C2. \<open>dequeue_buffer\<close> on an empty queue returns no buffer and changes nothing; otherwise
  it returns the head of the queue, removes it from the queue and sets its \<open>OUT\<close> flag.
  \<open>reuse_buffer\<close> on a buffer of the array whose \<open>OUT\<close> flag is set clears the flag and
  appends the buffer to the tail of the queue; on a buffer whose \<open>OUT\<close> flag is not set it
  changes nothing. Both keep the invariant \<open>mix_wf\<close>, by which no buffer is both queued
  and flagged \<open>OUT\<close> and no buffer is queued twice; the invariant holds after
  \<open>clear_buffers\<close>. Under the invariant, \<open>dequeue_buffer\<close> followed by \<open>reuse_buffer\<close> with
  the index of the buffer returned (the id that \<open>client_node_port_use_buffers\<close> gives it)
  leaves the mix as it was, but for the buffer having moved
  from the head of the queue to its tail, where it occurs once.
\<close>

theorem buffer_queue_recycling:
  "(queue m = [] \<longrightarrow> dequeue_buffer m = (None, m))
   \<and> (\<forall>b q. queue m = b # q \<longrightarrow>
         dequeue_buffer m =
           (Some b, m\<lparr>queue := remove1 b (queue m),
              buffers := (buffers m)
                [b := (buffers m ! b)\<lparr>flags := flags (buffers m ! b) OR BUFFER_FLAG_OUT\<rparr>]\<rparr>))
   \<and> (\<forall>i. unat i < length (buffers m)
           \<and> flags (buffers m ! unat i) AND BUFFER_FLAG_OUT = BUFFER_FLAG_OUT \<longrightarrow>
         reuse_buffer m i =
           Some (m\<lparr>queue := queue m @ [unat i],
              buffers := (buffers m)
                [unat i := (buffers m ! unat i)
                   \<lparr>flags := flags (buffers m ! unat i) AND NOT BUFFER_FLAG_OUT\<rparr>]\<rparr>))
   \<and> (\<forall>i. unat i < length (buffers m)
           \<and> flags (buffers m ! unat i) AND BUFFER_FLAG_OUT \<noteq> BUFFER_FLAG_OUT \<longrightarrow>
         reuse_buffer m i = Some m)
   \<and> (length (buffers m) = MAX_BUFFERS \<longrightarrow> mix_wf (clear_buffers m))
   \<and> (mix_wf m \<longrightarrow>
         mix_wf (snd (dequeue_buffer m))
         \<and> (\<forall>i m'. reuse_buffer m i = Some m' \<longrightarrow> mix_wf m')
         \<and> (\<forall>b q. queue m = b # q \<longrightarrow>
               fst (dequeue_buffer m) = Some b
               \<and> reuse_buffer (snd (dequeue_buffer m)) (of_nat b)
                   = Some (m\<lparr>queue := q @ [b]\<rparr>)
               \<and> b \<notin> set q))"
proof (intro conjI impI allI)
  show "dequeue_buffer m = (None, m)" if "queue m = []"
    using that by (simp add: dequeue_buffer_def spa_list_is_empty_def)
  show "dequeue_buffer m =
           (Some b, m\<lparr>queue := remove1 b (queue m),
              buffers := (buffers m)
                [b := (buffers m ! b)\<lparr>flags := flags (buffers m ! b) OR BUFFER_FLAG_OUT\<rparr>]\<rparr>)"
    if "queue m = b # q" for b q
    using that
    by (simp add: dequeue_buffer_def spa_list_is_empty_def spa_list_first_def spa_list_remove_def
        SPA_FLAG_SET_def Let_def)
  show "reuse_buffer m i =
           Some (m\<lparr>queue := queue m @ [unat i],
              buffers := (buffers m)
                [unat i := (buffers m ! unat i)
                   \<lparr>flags := flags (buffers m ! unat i) AND NOT BUFFER_FLAG_OUT\<rparr>]\<rparr>)"
    if "unat i < length (buffers m)
           \<and> flags (buffers m ! unat i) AND BUFFER_FLAG_OUT = BUFFER_FLAG_OUT" for i
    using that
    by (simp add: reuse_buffer_def SPA_FLAG_IS_SET_def SPA_FLAG_CLEAR_def spa_list_append_def Let_def)
  show "reuse_buffer m i = Some m"
    if "unat i < length (buffers m)
           \<and> flags (buffers m ! unat i) AND BUFFER_FLAG_OUT \<noteq> BUFFER_FLAG_OUT" for i
    using that by (simp add: reuse_buffer_def SPA_FLAG_IS_SET_def Let_def)
  show "mix_wf (clear_buffers m)" if "length (buffers m) = MAX_BUFFERS"
    using that by (simp add: mix_wf_def clear_buffers_def)
next
  assume wf: "mix_wf m"
  have len: "length (buffers m) = MAX_BUFFERS" and dq: "distinct (queue m)"
    and qb: "\<And>b. b \<in> set (queue m) \<Longrightarrow> b < length (buffers m)
           \<and> \<not> SPA_FLAG_IS_SET (flags (buffers m ! b)) BUFFER_FLAG_OUT"
    using wf by (auto simp add: mix_wf_def)
  show "mix_wf (snd (dequeue_buffer m))"
  proof (cases "queue m")
    case Nil
    then show ?thesis using wf by (simp add: dequeue_buffer_def spa_list_is_empty_def)
  next
    case (Cons b q)
    have bq: "b \<notin> set q" "distinct q" using dq Cons by simp_all
    define B where "B = (buffers m)
        [b := (buffers m ! b)\<lparr>flags := SPA_FLAG_SET (flags (buffers m ! b)) BUFFER_FLAG_OUT\<rparr>]"
    have d: "snd (dequeue_buffer m) = m\<lparr>queue := q, buffers := B\<rparr>"
      using Cons by (simp add: dequeue_buffer_def spa_list_is_empty_def spa_list_first_def
          spa_list_remove_def Let_def B_def)
    have keep: "x < length B
        \<and> \<not> SPA_FLAG_IS_SET (flags (B ! x)) BUFFER_FLAG_OUT" if x: "x \<in> set q" for x
    proof -
      have "b \<noteq> x" using x bq by auto
      then have "B ! x = buffers m ! x" by (simp add: B_def)
      moreover have "x \<in> set (queue m)" using x Cons by simp
      ultimately show ?thesis using qb[of x] by (simp add: B_def)
    qed
    show ?thesis
      unfolding d mix_wf_def using keep bq(2) len by (simp add: B_def)
  qed
  show "mix_wf m'" if r: "reuse_buffer m i = Some m'" for i m'
  proof (cases "unat i < length (buffers m)
      \<and> SPA_FLAG_IS_SET (flags (buffers m ! unat i)) BUFFER_FLAG_OUT")
    case False
    then have "m' = m" using r by (auto simp add: reuse_buffer_def Let_def split: if_splits)
    then show ?thesis using wf by simp
  next
    case True
    then have nq: "unat i \<notin> set (queue m)" using qb by blast
    have m': "m' = m\<lparr>queue := queue m @ [unat i],
        buffers := (buffers m)[unat i := (buffers m ! unat i)
          \<lparr>flags := SPA_FLAG_CLEAR (flags (buffers m ! unat i)) BUFFER_FLAG_OUT\<rparr>]\<rparr>"
      using r True by (simp add: reuse_buffer_def Let_def spa_list_append_def)
    define B where "B = (buffers m)[unat i := (buffers m ! unat i)
          \<lparr>flags := SPA_FLAG_CLEAR (flags (buffers m ! unat i)) BUFFER_FLAG_OUT\<rparr>]"
    have keep: "x < length B
        \<and> \<not> SPA_FLAG_IS_SET (flags (B ! x)) BUFFER_FLAG_OUT" if x: "x \<in> set (queue m)" for x
    proof -
      have "unat i \<noteq> x" using x nq by auto
      then have "B ! x = buffers m ! x" by (simp add: B_def)
      then show ?thesis using qb[OF x] by (simp add: B_def)
    qed
    have new: "unat i < length B
        \<and> \<not> SPA_FLAG_IS_SET (flags (B ! unat i)) BUFFER_FLAG_OUT"
      using True by (simp add: B_def flag_out_clear)
    have lb: "length B = MAX_BUFFERS" by (simp add: B_def len)
    show ?thesis
      unfolding m' mix_wf_def using keep new dq nq lb by (auto simp add: B_def[symmetric])
  qed
  show "fst (dequeue_buffer m) = Some b" if "queue m = b # q" for b q
    using that by (simp add: dequeue_buffer_def spa_list_is_empty_def spa_list_first_def Let_def)
  show "b \<notin> set q" if "queue m = b # q" for b q
    using that dq by simp
  show "reuse_buffer (snd (dequeue_buffer m)) (of_nat b) = Some (m\<lparr>queue := q @ [b]\<rparr>)"
    if q: "queue m = b # q" for b q
  proof -
    have b: "b < length (buffers m)"
      "\<not> SPA_FLAG_IS_SET (flags (buffers m ! b)) BUFFER_FLAG_OUT"
      using qb[of b] q by simp_all
    have "b < 2 ^ 32" using b(1) len by (simp add: MAX_BUFFERS_def)
    then have ub: "unat (of_nat b :: 32 word) = b" by (rule unat_of_nat32)
    have same: "(buffers m)[b := buffers m ! b] = buffers m" by simp
    show ?thesis
      using b
      by (simp add: dequeue_buffer_def spa_list_is_empty_def spa_list_first_def spa_list_remove_def
          reuse_buffer_def spa_list_append_def Let_def q ub flag_out_set flag_out_set_clear same)
  qed
qed


text \<open>The theorem at a mix with two buffers, both queued.\<close>

theorem buffer_queue_recycling_witness:
  "mix_wf example_mix
   \<and> length (buffers example_mix) = MAX_BUFFERS
   \<and> mix_wf (clear_buffers example_mix)
   \<and> dequeue_buffer (clear_buffers example_mix) = (None, clear_buffers example_mix)
   \<and> fst (dequeue_buffer example_mix) = Some 0
   \<and> mix_wf (snd (dequeue_buffer example_mix))
   \<and> reuse_buffer (snd (dequeue_buffer example_mix)) 0 = Some (example_mix\<lparr>queue := [1, 0]\<rparr>)
   \<and> reuse_buffer example_mix 1 = Some example_mix"
proof -
  note T = buffer_queue_recycling[of example_mix]
  note E = buffer_queue_recycling[of "clear_buffers example_mix"]
  have wf: "mix_wf example_mix"
    by (simp add: mix_wf_def example_mix_def MAX_BUFFERS_def SPA_FLAG_IS_SET_def BUFFER_FLAG_OUT_def)
  have l: "length (buffers example_mix) = MAX_BUFFERS"
    by (simp add: example_mix_def MAX_BUFFERS_def)
  have q: "queue example_mix = 0 # [1]" by (simp add: example_mix_def)
  have e: "queue (clear_buffers example_mix) = []" by (simp add: clear_buffers_def)
  have n: "unat (1 :: 32 word) < length (buffers example_mix)
      \<and> flags (buffers example_mix ! unat (1 :: 32 word)) AND BUFFER_FLAG_OUT \<noteq> BUFFER_FLAG_OUT"
    by (simp add: example_mix_def BUFFER_FLAG_OUT_def)
  have r1: "dequeue_buffer (clear_buffers example_mix) = (None, clear_buffers example_mix)"
    using E[THEN conjunct1] e by (rule mp)
  have r2: "reuse_buffer example_mix 1 = Some example_mix"
    using T[THEN conjunct2, THEN conjunct2, THEN conjunct2, THEN conjunct1, rule_format, OF n] .
  have r3: "mix_wf (clear_buffers example_mix)"
    using T[THEN conjunct2, THEN conjunct2, THEN conjunct2, THEN conjunct2, THEN conjunct1] l
    by (rule mp)
  note W = T[THEN conjunct2, THEN conjunct2, THEN conjunct2, THEN conjunct2, THEN conjunct2,
      THEN mp, OF wf]
  have r4: "mix_wf (snd (dequeue_buffer example_mix))" using W by (rule conjunct1)
  note R = W[THEN conjunct2, THEN conjunct2, rule_format, OF q]
  have r5: "fst (dequeue_buffer example_mix) = Some 0" using R by (rule conjunct1)
  have "reuse_buffer (snd (dequeue_buffer example_mix)) (of_nat 0)
      = Some (example_mix\<lparr>queue := [1] @ [0]\<rparr>)"
    using R[THEN conjunct2] by (rule conjunct1)
  then have r6: "reuse_buffer (snd (dequeue_buffer example_mix)) 0
      = Some (example_mix\<lparr>queue := [1, 0]\<rparr>)"
    by simp
  show ?thesis using wf l r1 r2 r3 r4 r5 r6 by blast
qed

section \<open>Properties of the timebase\<close>




section \<open>Properties of the cycle\<close>

lemma signal_sync_calls:
  "signal_sync c now = Returns c' \<Longrightarrow> calls c' = calls c"
  by (auto simp add: signal_sync_def split: option.splits)

lemma cycle_signal_calls:
  "cycle_signal c st now = Returns c' \<Longrightarrow> \<exists>rest. calls c' = calls c @ rest"
  by (auto simp add: cycle_signal_def invoke_def set_pending_new_pos_def
      dest!: signal_sync_calls split: option.splits if_splits)

lemma cycle_signal_returns:
  "activation c = Some a \<Longrightarrow> \<exists>c'. cycle_signal c st now = Returns c'"
  by (simp add: cycle_signal_def signal_sync_def invoke_def set_pending_new_pos_def)

text \<open>
  C7, as amended. With no position, \<open>cycle_run\<close> returns 0 and leaves the client as it is:
  it calls nothing. \<open>on_rtsocket_condition\<close> does not look at that result: on \<open>SPA_IO_IN\<close> it
  goes on to call the process callback, if one is registered, with 0 frames, and then
  \<open>cycle_signal\<close> with the status that the callback gave; it returns when the client's own
  activation is mapped.
\<close>

theorem cycle_run_without_position:
  assumes "position c = None" and "socket_source c = Some fd"
  shows "cycle_run c rd = Returns (0, c)
     \<and> (io_mask AND (SPA_IO_ERR OR SPA_IO_HUP) = 0 \<and> \<not> thread_callback c
          \<and> io_mask AND SPA_IO_IN \<noteq> 0
        \<longrightarrow> on_rtsocket_condition c io_mask rd now =
              (case process_callback c of
                 None \<Rightarrow> cycle_signal c 0 now
               | Some f \<Rightarrow> cycle_signal (invoke (ProcessCallback 0) c) (f 0) now)
            \<and> (\<forall>f c'. process_callback c = Some f
                   \<and> on_rtsocket_condition c io_mask rd now = Returns c'
                 \<longrightarrow> (\<exists>rest. calls c' = calls c @ ProcessCallback 0 # rest))
            \<and> (activation c \<noteq> None
                 \<longrightarrow> (\<exists>c'. on_rtsocket_condition c io_mask rd now = Returns c')))"
proof -
  have run: "cycle_run c rd = Returns (0, c)"
    using assms by (simp add: cycle_run_def)
  have on: "on_rtsocket_condition c io_mask rd now =
              (case process_callback c of
                 None \<Rightarrow> cycle_signal c 0 now
               | Some f \<Rightarrow> cycle_signal (invoke (ProcessCallback 0) c) (f 0) now)"
    if "io_mask AND (SPA_IO_ERR OR SPA_IO_HUP) = 0" "\<not> thread_callback c"
       "io_mask AND SPA_IO_IN \<noteq> 0"
    using that by (simp add: on_rtsocket_condition_def run)
  have tr: "\<exists>rest. calls c' = calls c @ ProcessCallback 0 # rest"
    if "process_callback c = Some f"
       "cycle_signal (invoke (ProcessCallback 0) c) (f 0) now = Returns c'" for f c'
    using cycle_signal_calls[OF that(2)] by (simp add: invoke_def)
  have ret: "\<exists>c'. (case process_callback c of
                 None \<Rightarrow> cycle_signal c 0 now
               | Some f \<Rightarrow> cycle_signal (invoke (ProcessCallback 0) c) (f 0) now) = Returns c'"
    if "activation c \<noteq> None"
  proof -
    from that obtain a where a: "activation c = Some a" by auto
    hence a': "activation (invoke (ProcessCallback 0) c) = Some a" by (simp add: invoke_def)
    show ?thesis
      using cycle_signal_returns[OF a] cycle_signal_returns[OF a']
      by (simp split: option.splits)
  qed
  show ?thesis
    using run on tr ret by (auto split: option.splits)
qed

text \<open>The theorem at a connected client that has a process callback and no position.\<close>

theorem cycle_run_without_position_witness:
  "cycle_run idle_client (ReadOk 1) = Returns (0, idle_client)
   \<and> (\<exists>c'. on_rtsocket_condition idle_client SPA_IO_IN (ReadOk 1) 5 = Returns c')"
proof -
  have p: "position idle_client = None" and s: "socket_source idle_client = Some 3"
    and a: "activation idle_client \<noteq> None" and t: "\<not> thread_callback idle_client"
    by (simp_all add: idle_client_def new_client_def)
  have m: "SPA_IO_IN AND (SPA_IO_ERR OR SPA_IO_HUP) = 0" "SPA_IO_IN AND SPA_IO_IN \<noteq> 0"
    by (simp_all add: SPA_IO_IN_def SPA_IO_ERR_def SPA_IO_HUP_def)
  show ?thesis
    using cycle_run_without_position[OF p s, of "ReadOk 1" SPA_IO_IN 5] a t m
    by blast
qed

text \<open>C7 as stated fails for the cycle as a whole: the same client, woken by the server
  before a position is set, has its process callback called, with a period of 0 frames.\<close>

theorem process_callback_without_position_counterexample:
  "position idle_client = None
   \<and> (\<exists>c'. on_rtsocket_condition idle_client SPA_IO_IN (ReadOk 1) 5 = Returns c'
         \<and> calls c' = [ProcessCallback 0])"
  by (simp add: idle_client_def new_client_def on_rtsocket_condition_def cycle_run_def
      cycle_signal_def signal_sync_def invoke_def SPA_IO_IN_def SPA_IO_ERR_def SPA_IO_HUP_def)

section \<open>Properties of the port pool\<close>

lemma new_client_pool_wf: "pool_wf (new_client client_name)"
  by (auto simp add: pool_wf_def new_client_def distinct_map inj_on_def)

lemma alloc_object_fields:
  assumes "alloc_object c ok = (r, c')"
  shows "ports c' = ports c" "free_ports c' = free_ports c" "port_pool c' = port_pool c"
    "free_mix c' = free_mix c" "mix_pool c' = mix_pool c" "node_id c' = node_id c"
  using assms
  by (auto simp add: alloc_object_def object_unlink_def Let_def split: if_splits)

lemma alloc_object_None:
  "(fst (alloc_object c ok) = None) = (free_objects c = [] \<and> \<not> ok)"
  by (simp add: alloc_object_def spa_list_is_empty_def Let_def)

lemma port_unlink_fields:
  "port_pool (port_unlink p c) = port_pool c" "free_objects (port_unlink p c) = free_objects c"
  "ports (port_unlink p c) d = remove1 p (ports c d)"
  "free_ports (port_unlink p c) d = remove1 p (free_ports c d)"
  "free_mix (port_unlink p c) = free_mix c"
  by (simp_all add: port_unlink_def)

text \<open>What \<open>alloc_port\<close> does when the free list is not empty.\<close>

lemma alloc_port_nonempty:
  assumes "free_ports c dir \<noteq> []"
  defines "p \<equiv> hd (free_ports c dir)"
  shows "free_objects c = [] \<and> \<not> ok \<Longrightarrow> alloc_port c dir ok = NullDeref"
    and "\<not> (free_objects c = [] \<and> \<not> ok) \<Longrightarrow>
         \<exists>c' ob. alloc_port c dir ok = Returns (Some p, c')
           \<and> ports c' = (\<lambda>d. remove1 p (ports c d))(dir := remove1 p (ports c dir) @ [p])
           \<and> free_ports c' = (\<lambda>d. remove1 p (free_ports c d))
           \<and> free_mix c' = free_mix c
           \<and> port_pool c' = (port_pool c)(fst p := (port_pool c (fst p))
                (snd p := (port_pool c (fst p) (snd p))\<lparr>valid := True, zeroed := False,
                            port_object := Some ob, port_mix := []\<rparr>))"
proof -
  assume a: "free_objects c = [] \<and> \<not> ok"
  have "fst (alloc_object (port_unlink p c) ok) = None"
    using a by (simp add: alloc_object_None port_unlink_fields)
  then obtain c2 where "alloc_object (port_unlink p c) ok = (None, c2)"
    by (cases "alloc_object (port_unlink p c) ok") auto
  thus "alloc_port c dir ok = NullDeref"
    using assms by (simp add: alloc_port_def Let_def)
next
  assume a: "\<not> (free_objects c = [] \<and> \<not> ok)"
  have "fst (alloc_object (port_unlink p c) ok) \<noteq> None"
    using a by (simp add: alloc_object_None port_unlink_fields)
  then obtain ob c2 where ao: "alloc_object (port_unlink p c) ok = (Some ob, c2)"
    by (cases "alloc_object (port_unlink p c) ok") auto
  note f = alloc_object_fields[OF ao]
  show "\<exists>c' ob. alloc_port c dir ok = Returns (Some p, c')
           \<and> ports c' = (\<lambda>d. remove1 p (ports c d))(dir := remove1 p (ports c dir) @ [p])
           \<and> free_ports c' = (\<lambda>d. remove1 p (free_ports c d))
           \<and> free_mix c' = free_mix c
           \<and> port_pool c' = (port_pool c)(fst p := (port_pool c (fst p))
                (snd p := (port_pool c (fst p) (snd p))\<lparr>valid := True, zeroed := False,
                            port_object := Some ob, port_mix := []\<rparr>))"
    using assms(1) ao f
    by (auto simp add: alloc_port_def Let_def p_def[symmetric] spa_list_append_def
        port_unlink_fields fun_eq_iff)
qed

lemma pool_wfD:
  assumes "pool_wf c"
  shows "distinct (free_ports c d)" "distinct (ports c d)"
    "set (free_ports c d) \<inter> set (ports c d) = {}"
    "p \<in> set (free_ports c d) \<Longrightarrow> fst p = d \<and> snd p < MAX_PORTS"
    "p \<in> set (ports c d) \<Longrightarrow> fst p = d \<and> snd p < MAX_PORTS"
    "i < MAX_PORTS \<Longrightarrow> direction (port_pool c d i) = d"
    "i < MAX_PORTS \<Longrightarrow> valid (port_pool c d i) = ((d, i) \<in> set (ports c d))"
    "i < MAX_PORTS \<Longrightarrow> valid (port_pool c d i) \<Longrightarrow> port_object (port_pool c d i) \<noteq> None"
  using assms unfolding pool_wf_def by auto

lemma remove1_hd: "xs \<noteq> [] \<Longrightarrow> remove1 (hd xs) xs = tl xs"
  by (cases xs) simp_all

lemma in_set_tl: "x \<in> set (tl xs) \<Longrightarrow> x \<in> set xs"
  by (cases xs) simp_all

lemma hd_notin_tl: "distinct xs \<Longrightarrow> xs \<noteq> [] \<Longrightarrow> hd xs \<notin> set (tl xs)"
  by (cases xs) simp_all

lemma alloc_port_wf:
  assumes wf: "pool_wf c" and al: "alloc_port c dir ok = Returns (Some p, c')"
  shows "p = hd (free_ports c dir)" and "fst p = dir" and "snd p < MAX_PORTS"
    and "\<not> valid (port_pool c (fst p) (snd p))" and "valid (port_pool c' (fst p) (snd p))"
    and "free_ports c' = (free_ports c)(dir := tl (free_ports c dir))"
    and "ports c' = (ports c)(dir := ports c dir @ [p])"
    and "\<And>d i. (d, i) \<noteq> p \<Longrightarrow> port_pool c' d i = port_pool c d i"
    and "free_mix c' = free_mix c"
    and "pool_wf c'"
    and "port_mix (port_pool c' (fst p) (snd p)) = []"
proof -
  have ne: "free_ports c dir \<noteq> []"
    using al by (auto simp add: alloc_port_def)
  define q where "q = hd (free_ports c dir)"
  have nd: "\<not> (free_objects c = [] \<and> \<not> ok)"
  proof
    assume "free_objects c = [] \<and> \<not> ok"
    from alloc_port_nonempty(1)[OF ne this] al show False by simp
  qed
  from alloc_port_nonempty(2)[OF ne nd] obtain c2 ob where
    r: "alloc_port c dir ok = Returns (Some q, c2)"
    and ps: "ports c2 = (\<lambda>d. remove1 q (ports c d))(dir := remove1 q (ports c dir) @ [q])"
    and fs: "free_ports c2 = (\<lambda>d. remove1 q (free_ports c d))"
    and fm: "free_mix c2 = free_mix c"
    and pp: "port_pool c2 = (port_pool c)(fst q := (port_pool c (fst q))
                (snd q := (port_pool c (fst q) (snd q))\<lparr>valid := True, zeroed := False,
                            port_object := Some ob, port_mix := []\<rparr>))"
    unfolding q_def by blast
  from r al have pq: "p = q" and cc: "c' = c2" by simp_all
  have qin: "q \<in> set (free_ports c dir)" using ne by (simp add: q_def)
  have q1: "fst q = dir" and q2: "snd q < MAX_PORTS"
    using pool_wfD(4)[OF wf qin] by simp_all
  have qp: "q \<notin> set (ports c d)" for d
  proof (cases "d = dir")
    case True
    then show ?thesis using pool_wfD(3)[OF wf, of dir] qin by auto
  next
    case False
    then show ?thesis using pool_wfD(5)[OF wf, of q d] q1 by auto
  qed
  have qf: "q \<notin> set (free_ports c d)" if "d \<noteq> dir" for d
    using pool_wfD(4)[OF wf, of q d] q1 that by auto
  have ps': "ports c2 = (ports c)(dir := ports c dir @ [q])"
    by (simp add: ps fun_eq_iff remove1_idem qp)
  have fs': "free_ports c2 = (free_ports c)(dir := tl (free_ports c dir))"
    by (auto simp add: fs fun_eq_iff remove1_idem qf remove1_hd[OF ne, folded q_def])
  have qe: "q = (dir, snd q)" using q1 by (cases q) simp
  have nv: "\<not> valid (port_pool c (fst q) (snd q))"
    using pool_wfD(7)[OF wf q2, of dir] qp[of dir] q1 qe by simp
  have wf2: "pool_wf c2"
    unfolding pool_wf_def
  proof (intro allI conjI ballI impI)
    fix d
    show "distinct (free_ports c2 d @ ports c2 d)"
      using pool_wfD(1,2,3)[OF wf, of d] qp[of d] qin
        hd_notin_tl[OF pool_wfD(1)[OF wf, of dir] ne, folded q_def]
      by (auto simp add: ps' fs' distinct_tl dest: in_set_tl)
  next
    fix d x assume "x \<in> set (free_ports c2 d @ ports c2 d)"
    then show "fst x = d" "snd x < MAX_PORTS"
      using pool_wfD(4,5)[OF wf, of x d] q1 q2
      by (auto simp add: ps' fs' split: if_splits dest: in_set_tl)
  next
    fix d i assume i: "i < MAX_PORTS"
    show "direction (port_pool c2 d i) = d"
      using pool_wfD(6)[OF wf i, of d] by (auto simp add: pp)
    show "valid (port_pool c2 d i) = ((d, i) \<in> set (ports c2 d))"
      using pool_wfD(7)[OF wf i, of d] q1 qe
      by (cases q) (auto simp add: pp ps')
    show "valid (port_pool c2 d i) \<Longrightarrow> port_object (port_pool c2 d i) \<noteq> None"
      using pool_wfD(8)[OF wf i, of d] by (auto simp add: pp split: if_splits)
  qed
  show "p = hd (free_ports c dir)" by (simp add: pq q_def)
  show "fst p = dir" "snd p < MAX_PORTS" by (simp_all add: pq q1 q2)
  show "\<not> valid (port_pool c (fst p) (snd p))" by (simp add: pq nv)
  show "valid (port_pool c' (fst p) (snd p))" by (simp add: pq cc pp)
  show "free_ports c' = (free_ports c)(dir := tl (free_ports c dir))" by (simp add: cc fs')
  show "ports c' = (ports c)(dir := ports c dir @ [p])" by (simp add: cc pq ps')
  show "port_pool c' d i = port_pool c d i" if "(d, i) \<noteq> p" for d i
    using that by (cases q) (auto simp add: cc pq pp)
  show "free_mix c' = free_mix c" by (simp add: cc fm)
  show "pool_wf c'" by (simp add: cc wf2)
  show "port_mix (port_pool c' (fst p) (snd p)) = []" by (simp add: pq cc pp)
qed

lemma free_mix_entry_fields:
  "ports (free_mix_entry c m) = ports c" "free_ports (free_mix_entry c m) = free_ports c"
  "port_pool (free_mix_entry c m) d i
     = (port_pool c d i)\<lparr>port_mix := remove1 m (port_mix (port_pool c d i))\<rparr>"
  "free_mix (free_mix_entry c m) = link_append (link_remove (MixLink m) (free_mix c)) (MixLink m)"
  by (simp_all add: free_mix_entry_def mix_port_unlink_def Let_def)

lemma foldl_remove1_self: "foldl (\<lambda>l m. remove1 m l) ms ms = []"
  by (induction ms) simp_all

lemma foldl_free_mix_entry:
  "ports (foldl free_mix_entry c ms) = ports c"
  "free_ports (foldl free_mix_entry c ms) = free_ports c"
  "port_pool (foldl free_mix_entry c ms) d i
     = (port_pool c d i)\<lparr>port_mix := foldl (\<lambda>l m. remove1 m l) (port_mix (port_pool c d i)) ms\<rparr>"
proof (induction ms arbitrary: c)
  case Nil
  { case 1 show ?case by simp }
  { case 2 show ?case by simp }
  { case 3 show ?case by simp }
next
  case (Cons m ms)
  { case 1 show ?case by (simp add: Cons.IH(1) free_mix_entry_fields) }
  { case 2 show ?case by (simp add: Cons.IH(2) free_mix_entry_fields) }
  { case 3 show ?case by (simp add: Cons.IH(3) free_mix_entry_fields) }
qed

text \<open>What \<open>free_port\<close> does to a valid port of a well-formed pool.\<close>

lemma free_port_wf:
  assumes wf: "pool_wf c" and i: "i < MAX_PORTS" and v: "valid (port_pool c d i)"
  shows "\<exists>c'. free_port c (d, i) = Returns c'
           \<and> \<not> valid (port_pool c' d i)
           \<and> port_mix (port_pool c' d i) = []
           \<and> free_mix c' = free_mix (foldl free_mix_entry c (port_mix (port_pool c d i)))
           \<and> free_ports c' = (free_ports c)(d := free_ports c d @ [(d, i)])
           \<and> ports c' = (ports c)(d := remove1 (d, i) (ports c d))
           \<and> (\<forall>d' j. (d', j) \<noteq> (d, i) \<longrightarrow> port_pool c' d' j =
                 (port_pool c d' j)\<lparr>port_mix := foldl (\<lambda>l m. remove1 m l)
                    (port_mix (port_pool c d' j)) (port_mix (port_pool c d i))\<rparr>)
           \<and> pool_wf c'"
proof -
  define ms where "ms = port_mix (port_pool c d i)"
  define c1 where "c1 = foldl free_mix_entry c ms"
  note f1 = foldl_free_mix_entry[of c ms, folded c1_def]
  obtain ob where ob: "port_object (port_pool c d i) = Some ob"
    using pool_wfD(8)[OF wf i v] by auto
  have dr: "direction (port_pool c d i) = d" by (rule pool_wfD(6)[OF wf i])
  have pin: "(d, i) \<in> set (ports c d)" using pool_wfD(7)[OF wf i, of d] v by simp
  have pf: "(d, i) \<notin> set (free_ports c d')" for d'
  proof (cases "d' = d")
    case True
    then show ?thesis using pool_wfD(3)[OF wf, of d] pin by auto
  next
    case False
    then show ?thesis using pool_wfD(4)[OF wf, of "(d, i)" d'] by auto
  qed
  have pp: "(d, i) \<notin> set (ports c d')" if "d' \<noteq> d" for d'
    using pool_wfD(5)[OF wf, of "(d, i)" d'] that by auto
  define c' where "c' = (free_object
       ((port_unlink (d, i) c1)\<lparr>port_pool := (port_pool (port_unlink (d, i) c1))
            (d := (port_pool (port_unlink (d, i) c1) d)
               (i := (port_pool (port_unlink (d, i) c1) d i)\<lparr>valid := False\<rparr>))\<rparr>) ob)
       \<lparr>free_ports := (\<lambda>d'. remove1 (d, i) (free_ports c1 d'))
            (d := remove1 (d, i) (free_ports c1 d) @ [(d, i)])\<rparr>"
  have r: "free_port c (d, i) = Returns c'"
    using v ob dr
    by (simp add: free_port_def Let_def ms_def[symmetric] c1_def[symmetric] c'_def
        port_unlink_def f1 free_object_def object_unlink_def)
  have pool: "port_pool c' d' j =
      (if (d', j) = (d, i) then (port_pool c d i)\<lparr>port_mix := [], valid := False\<rparr>
       else (port_pool c d' j)\<lparr>port_mix := foldl (\<lambda>l m. remove1 m l) (port_mix (port_pool c d' j)) ms\<rparr>)"
    for d' j
    by (auto simp add: c'_def free_object_def object_unlink_def Let_def port_unlink_def f1
        ms_def foldl_remove1_self)
  have fp: "free_ports c' = (free_ports c)(d := free_ports c d @ [(d, i)])"
    by (auto simp add: c'_def f1 fun_eq_iff remove1_idem pf)
  have ps: "ports c' = (ports c)(d := remove1 (d, i) (ports c d))"
    by (auto simp add: c'_def free_object_def object_unlink_def Let_def port_unlink_def f1
        fun_eq_iff remove1_idem pp)
  have fm: "free_mix c' = free_mix c1"
    by (simp add: c'_def free_object_def object_unlink_def Let_def port_unlink_def)
  have wf': "pool_wf c'"
    unfolding pool_wf_def
  proof (intro allI conjI ballI impI)
    fix d'
    show "distinct (free_ports c' d' @ ports c' d')"
      using pool_wfD(1,2,3)[OF wf, of d'] pf[of d']
      by (auto simp add: fp ps dest: notin_set_remove1)
  next
    fix d' x assume "x \<in> set (free_ports c' d' @ ports c' d')"
    then show "fst x = d'" "snd x < MAX_PORTS"
      using pool_wfD(4,5)[OF wf, of x d'] i
      by (auto simp add: fp ps split: if_splits dest: notin_set_remove1)
  next
    fix d' j assume j: "j < MAX_PORTS"
    show "direction (port_pool c' d' j) = d'"
      using pool_wfD(6)[OF wf j, of d'] by (auto simp add: pool)
    show "valid (port_pool c' d' j) = ((d', j) \<in> set (ports c' d'))"
      using pool_wfD(7)[OF wf j, of d'] pool_wfD(2)[OF wf, of d]
      by (auto simp add: pool ps)
    show "valid (port_pool c' d' j) \<Longrightarrow> port_object (port_pool c' d' j) \<noteq> None"
      using pool_wfD(8)[OF wf j, of d'] by (auto simp add: pool split: if_splits)
  qed
  show ?thesis
    using r wf' fp ps fm by (auto simp add: pool ms_def c1_def)
qed

lemma free_port_invalid:
  "\<not> valid (port_pool c (fst p) (snd p)) \<Longrightarrow> free_port c p = Returns c"
  by (simp add: free_port_def Let_def)

lemma alloc_port_empty: "free_ports c dir = [] \<Longrightarrow> alloc_port c dir ok = Returns (None, c)"
  by (simp add: alloc_port_def)

lemma alloc_port_outcome:
  "(\<exists>c'. alloc_port c dir ok = Returns (None, c')) = (free_ports c dir = [])"
  "(alloc_port c dir ok = NullDeref) = (free_ports c dir \<noteq> [] \<and> free_objects c = [] \<and> \<not> ok)"
proof -
  show "(\<exists>c'. alloc_port c dir ok = Returns (None, c')) = (free_ports c dir = [])"
  proof (cases "free_ports c dir = []")
    case True
    then show ?thesis by (simp add: alloc_port_empty)
  next
    case False
    show ?thesis
    proof (cases "free_objects c = [] \<and> \<not> ok")
      case True
      from alloc_port_nonempty(1)[OF False True] False show ?thesis by simp
    next
      case nd: False
      from alloc_port_nonempty(2)[OF False nd] False show ?thesis by auto
    qed
  qed
  show "(alloc_port c dir ok = NullDeref) = (free_ports c dir \<noteq> [] \<and> free_objects c = [] \<and> \<not> ok)"
  proof (cases "free_ports c dir = []")
    case True
    then show ?thesis by (simp add: alloc_port_empty)
  next
    case False
    show ?thesis
    proof (cases "free_objects c = [] \<and> \<not> ok")
      case True
      from alloc_port_nonempty(1)[OF False True] False True show ?thesis by simp
    next
      case nd: False
      from alloc_port_nonempty(2)[OF False nd] False nd show ?thesis by auto
    qed
  qed
qed

text \<open>Allocations in a row return the ports of the free list, head first.\<close>

lemma alloc_ports_order:
  "pool_wf c \<Longrightarrow> n \<le> length (free_ports c dir) \<Longrightarrow>
     \<exists>c'. alloc_ports c dir n = Returns (map Some (take n (free_ports c dir)), c')"
proof (induction n arbitrary: c)
  case 0
  then show ?case by simp
next
  case (Suc n)
  hence ne: "free_ports c dir \<noteq> []" by auto
  have nd: "\<not> (free_objects c = [] \<and> \<not> True)" by simp
  from alloc_port_nonempty(2)[OF ne nd] obtain c1 where
    a: "alloc_port c dir True = Returns (Some (hd (free_ports c dir)), c1)" by blast
  have wf1: "pool_wf c1" and f1: "free_ports c1 dir = tl (free_ports c dir)"
    using alloc_port_wf(6,10)[OF Suc.prems(1) a] by simp_all
  have "n \<le> length (free_ports c1 dir)" using Suc.prems(2) by (simp add: f1)
  from Suc.IH[OF wf1 this] obtain c2 where
    b: "alloc_ports c1 dir n = Returns (map Some (take n (free_ports c1 dir)), c2)" by blast
  have t: "take (Suc n) (free_ports c dir) = hd (free_ports c dir) # take n (tl (free_ports c dir))"
    using ne by (cases "free_ports c dir") simp_all
  show ?case by (simp add: a b f1 t)
qed

text \<open>
  The slots of the port pool. The pool as \<open>jack_client_open\<close> sets it up is well formed,
  and \<open>alloc_port\<close> and \<open>free_port\<close> keep it well formed: the valid ports are the ports on
  the list \<open>ports\<close>, each of them once. In a well-formed pool:

  \<^item> \<open>alloc_port\<close> returns \<open>NULL\<close> exactly when the free list of the direction is empty. (It
    does not return when no object is free and \<open>calloc\<close> fails: the result of
    \<open>alloc_object\<close> is written to unchecked.)
  \<^item> The port that \<open>alloc_port\<close> returns is the head of the free list; it was not valid
    before the call and is valid after it; the validity of every other port is unchanged.
  \<^item> \<open>free_port\<close> on a valid port returns with the port not valid, its mix list empty and
    the port at the tail of the free list of its direction. A second \<open>free_port\<close> on it
    changes nothing, and so does \<open>free_port\<close> on any port that is not valid.
  \<^item> After \<open>free_port\<close> the allocations that follow return the ports of the free list in
    order, the freed port last among them.
\<close>

lemma port_slots_consistent:
  assumes "pool_wf c" and "i < MAX_PORTS"
  shows "pool_wf (new_client client_name)
     \<and> ((\<exists>c'. alloc_port c dir ok = Returns (None, c')) = (free_ports c dir = []))
     \<and> ((alloc_port c dir ok = NullDeref)
          = (free_ports c dir \<noteq> [] \<and> free_objects c = [] \<and> \<not> ok))
     \<and> (\<forall>p c'. alloc_port c dir ok = Returns (Some p, c')
          \<longrightarrow> p = hd (free_ports c dir) \<and> fst p = dir \<and> snd p < MAX_PORTS
              \<and> \<not> valid (port_pool c dir (snd p)) \<and> valid (port_pool c' dir (snd p))
              \<and> (\<forall>d' j. (d', j) \<noteq> p \<longrightarrow> valid (port_pool c' d' j) = valid (port_pool c d' j))
              \<and> pool_wf c')
     \<and> (valid (port_pool c d i)
          \<longrightarrow> (\<exists>c'. free_port c (d, i) = Returns c'
                 \<and> \<not> valid (port_pool c' d i)
                 \<and> port_mix (port_pool c' d i) = []
                 \<and> free_ports c' d = free_ports c d @ [(d, i)]
                 \<and> (\<forall>d' j. (d', j) \<noteq> (d, i)
                       \<longrightarrow> valid (port_pool c' d' j) = valid (port_pool c d' j))
                 \<and> pool_wf c'
                 \<and> free_port c' (d, i) = Returns c'
                 \<and> (\<exists>c''. alloc_ports c' d (length (free_ports c' d))
                            = Returns (map Some (free_ports c d @ [(d, i)]), c''))))
     \<and> (\<not> valid (port_pool c d i) \<longrightarrow> free_port c (d, i) = Returns c)"
proof -
  have al: "p = hd (free_ports c dir) \<and> fst p = dir \<and> snd p < MAX_PORTS
              \<and> \<not> valid (port_pool c dir (snd p)) \<and> valid (port_pool c' dir (snd p))
              \<and> (\<forall>d' j. (d', j) \<noteq> p \<longrightarrow> valid (port_pool c' d' j) = valid (port_pool c d' j))
              \<and> pool_wf c'"
    if a: "alloc_port c dir ok = Returns (Some p, c')" for p c'
    using alloc_port_wf(1,2,3,4,5,8,10)[OF assms(1) a] by auto
  have fr: "\<exists>c'. free_port c (d, i) = Returns c'
                 \<and> \<not> valid (port_pool c' d i)
                 \<and> port_mix (port_pool c' d i) = []
                 \<and> free_ports c' d = free_ports c d @ [(d, i)]
                 \<and> (\<forall>d' j. (d', j) \<noteq> (d, i)
                       \<longrightarrow> valid (port_pool c' d' j) = valid (port_pool c d' j))
                 \<and> pool_wf c'
                 \<and> free_port c' (d, i) = Returns c'
                 \<and> (\<exists>c''. alloc_ports c' d (length (free_ports c' d))
                            = Returns (map Some (free_ports c d @ [(d, i)]), c''))"
    if v: "valid (port_pool c d i)"
  proof -
    from free_port_wf[OF assms v] obtain c' where
      r: "free_port c (d, i) = Returns c'" and nv: "\<not> valid (port_pool c' d i)"
      and pm: "port_mix (port_pool c' d i) = []"
      and fp: "free_ports c' = (free_ports c)(d := free_ports c d @ [(d, i)])"
      and ot: "\<forall>d' j. (d', j) \<noteq> (d, i) \<longrightarrow> port_pool c' d' j =
                 (port_pool c d' j)\<lparr>port_mix := foldl (\<lambda>l m. remove1 m l)
                    (port_mix (port_pool c d' j)) (port_mix (port_pool c d i))\<rparr>"
      and wf': "pool_wf c'"
      by blast
    have ot': "\<forall>d' j. (d', j) \<noteq> (d, i) \<longrightarrow> valid (port_pool c' d' j) = valid (port_pool c d' j)"
    proof (intro allI impI)
      fix d' j assume "(d', j) \<noteq> (d, i)"
      with ot have "port_pool c' d' j =
                 (port_pool c d' j)\<lparr>port_mix := foldl (\<lambda>l m. remove1 m l)
                    (port_mix (port_pool c d' j)) (port_mix (port_pool c d i))\<rparr>" by blast
      thus "valid (port_pool c' d' j) = valid (port_pool c d' j)" by simp
    qed
    have again: "free_port c' (d, i) = Returns c'"
      using free_port_invalid[of c' "(d, i)"] nv by simp
    from alloc_ports_order[OF wf' order_refl, of d] obtain c'' where
      "alloc_ports c' d (length (free_ports c' d)) = Returns (map Some (free_ports c' d), c'')"
      by auto
    hence "alloc_ports c' d (length (free_ports c' d))
             = Returns (map Some (free_ports c d @ [(d, i)]), c'')"
      by (simp add: fp)
    with r nv pm fp ot' wf' again show ?thesis by auto
  qed
  have nf: "free_port c (d, i) = Returns c" if "\<not> valid (port_pool c d i)"
    using free_port_invalid[of c "(d, i)"] that by simp
  show ?thesis
    using new_client_pool_wf[of client_name] alloc_port_outcome[of c dir ok] al fr nf
    by blast
qed

section \<open>The mixes of a freed port\<close>







section \<open>Properties of the registry\<close>

lemma alloc_object_registry_fields:
  assumes "alloc_object c ok = (r, c')"
  shows "globals c' = globals c" "calls c' = calls c"
  using assms
  by (auto simp add: alloc_object_def object_unlink_def Let_def split: if_splits)

lemma free_object_registry_fields:
  "globals (free_object c ob) = globals c" "calls (free_object c ob) = calls c"
  by (simp_all add: free_object_def object_unlink_def Let_def)

text \<open>
  C9, as amended. An announcement of a Port without \<open>node.id\<close> or without \<open>port.name\<close>
  leaves the client as it was. An announcement of a Link without one of its two port ids
  takes an object and puts it back on the free list (unless no object is free and \<open>calloc\<close>
  fails, when a \<open>NULL\<close> pointer is dereferenced). In both cases the map of the globals is
  unchanged, no slot is added to it, and no callback is called: a lookup of the id gives
  what it gave before, and where that is \<open>NULL\<close> a later \<open>registry_event_global_remove\<close> of
  the id does nothing.
\<close>

theorem dropped_announcement_not_in_map:
  assumes "(type = PW_TYPE_INTERFACE_Port
              \<and> (spa_dict_lookup ps PW_KEY_NODE_ID = None \<or> spa_dict_lookup ps PW_KEY_PORT_NAME = None))
         \<or> (type = PW_TYPE_INTERFACE_Link
              \<and> (spa_dict_lookup ps PW_KEY_LINK_OUTPUT_PORT = None
                   \<or> spa_dict_lookup ps PW_KEY_LINK_INPUT_PORT = None)
              \<and> \<not> (free_objects c = [] \<and> \<not> env_calloc_ok env))"
  shows "\<exists>c'. registry_event_global c env ident type (Some ps) = Returns c'
           \<and> globals c' = globals c
           \<and> pw_map_get_size (globals c') = pw_map_get_size (globals c)
           \<and> pw_map_lookup (globals c') (unat ident) = pw_map_lookup (globals c) (unat ident)
           \<and> calls c' = calls c
           \<and> (type = PW_TYPE_INTERFACE_Port \<longrightarrow> c' = c)
           \<and> (pw_map_lookup (globals c) (unat ident) = None
                \<longrightarrow> registry_event_global_remove c' ident = c')"
proof -
  have main: "\<exists>c'. registry_event_global c env ident type (Some ps) = Returns c'
           \<and> globals c' = globals c \<and> calls c' = calls c
           \<and> (type = PW_TYPE_INTERFACE_Port \<longrightarrow> c' = c)"
  proof (cases "type = PW_TYPE_INTERFACE_Port")
    case t: True
    with assms have m: "spa_dict_lookup ps PW_KEY_NODE_ID = None
                          \<or> spa_dict_lookup ps PW_KEY_PORT_NAME = None"
      by simp
    have "registry_event_global c env ident type (Some ps) = Returns c"
      using m by (auto simp add: registry_event_global_def t Let_def split: option.splits)
    thus ?thesis by simp
  next
    case False
    with assms have t: "type = PW_TYPE_INTERFACE_Link"
      and m: "spa_dict_lookup ps PW_KEY_LINK_OUTPUT_PORT = None
                \<or> spa_dict_lookup ps PW_KEY_LINK_INPUT_PORT = None"
      and a: "\<not> (free_objects c = [] \<and> \<not> env_calloc_ok env)"
      by simp_all
    have "fst (alloc_object c (env_calloc_ok env)) \<noteq> None"
      using a by (simp add: alloc_object_None)
    then obtain ob c1 where ao: "alloc_object c (env_calloc_ok env) = (Some ob, c1)"
      by (cases "alloc_object c (env_calloc_ok env)") auto
    note f = alloc_object_registry_fields[OF ao]
    show ?thesis
      using m
      by (auto simp add: registry_event_global_def t ao Let_def free_object_registry_fields f
          update_object_def split: option.splits)
  qed
  then obtain c' where r: "registry_event_global c env ident type (Some ps) = Returns c'"
    and g: "globals c' = globals c" and k: "calls c' = calls c"
    and p: "type = PW_TYPE_INTERFACE_Port \<longrightarrow> c' = c"
    by blast
  have "registry_event_global_remove c' ident = c'"
    if "pw_map_lookup (globals c) (unat ident) = None"
    using that by (simp add: registry_event_global_remove_def g)
  with r g k p show ?thesis by simp
qed

text \<open>The theorem at a new client that listens to the registry: a Link with id 5 is
  announced with its output port only.\<close>

theorem dropped_announcement_not_in_map_witness:
  "\<exists>c'. registry_event_global listening_client example_environment 5 PW_TYPE_INTERFACE_Link
           (Some [(PW_KEY_LINK_OUTPUT_PORT, ''3'')]) = Returns c'
      \<and> globals c' = []
      \<and> pw_map_lookup (globals c') 5 = None
      \<and> calls c' = []
      \<and> registry_event_global_remove c' 5 = c'"
  using dropped_announcement_not_in_map[of PW_TYPE_INTERFACE_Link
      "[(PW_KEY_LINK_OUTPUT_PORT, ''3'')]" listening_client example_environment 5]
  by (simp add: spa_dict_lookup_def PW_KEY_LINK_OUTPUT_PORT_def PW_KEY_LINK_INPUT_PORT_def
      example_environment_def listening_client_def new_client_def pw_map_lookup_def
      pw_map_get_size_def)

text \<open>C9 as stated fails: a Port with id 5 is announced without \<open>node.id\<close> to a client whose
  map of globals is empty. The map is empty afterwards too: no slot was reserved for the
  id 5.\<close>

theorem dropped_port_reserves_no_slot_counterexample:
  "registry_event_global listening_client example_environment 5 PW_TYPE_INTERFACE_Port
      (Some [(PW_KEY_PORT_NAME, ''playback_1'')]) = Returns listening_client
   \<and> pw_map_get_size (globals listening_client) = 0"
  by (simp add: registry_event_global_def spa_dict_lookup_def string_to_type_def
      PW_KEY_FORMAT_DSP_def PW_KEY_NODE_ID_def PW_KEY_PORT_NAME_def SPA_ID_INVALID_def
      listening_client_def new_client_def pw_map_get_size_def Let_def)

end
